theory Spec2Isabelle
  imports Complex_Main "HOL-Library.Sublist" "HOL-Library.Multiset"
begin

section \<open>Go values used by the monitoring package\<close>

text \<open>
  A Go string is a sequence of bytes, here a \<open>char list\<close>. A non-nil \<open>error\<close> is
  represented by the text its \<open>Error()\<close> method returns; the nil error is \<open>None\<close>.
\<close>

type_synonym error = string

text \<open>
  A call either returns or panics (a run-time panic of the Go runtime, with its message).
\<close>

datatype 'a outcome = Panic string | Return 'a

text \<open>
  A Go \<open>map[string]string\<close> is the list of its entries; the keys of a map are distinct.
  A \<open>range\<close> loop visits the entries in an order the runtime chooses: the operations
  that range over a map take that choice as the argument \<open>visit\<close>, which returns the
  entries of a map in the order of the visit.
\<close>

type_synonym go_map = "(string \<times> string) list"

text \<open>\<open>xs[i:j]\<close> for \<open>i \<le> j \<le> len(xs)\<close>, the only way the package slices.\<close>

definition slice :: "'a list \<Rightarrow> nat \<Rightarrow> nat \<Rightarrow> 'a list" where
  "slice xs i j = take (j - i) (drop i xs)"

subsection \<open>The functions of package strings that \<open>contains\<close> calls\<close>

text \<open>
  \<open>strings.ToLower\<close> has two paths. A string whose bytes are all below \<open>utf8.RuneSelf\<close>
  (128) is lowered byte by byte: the letters \<open>A\<close> to \<open>Z\<close> (65 to 90) move to \<open>a\<close> to
  \<open>z\<close>, every other byte stays. Any other string is mapped rune by rune through
  \<open>unicode.ToLower\<close>, by the Unicode tables of the Go library, which are not part of the
  repository: that mapping of a whole string is the argument \<open>unicodeToLower\<close>.
\<close>

definition isASCII :: "string \<Rightarrow> bool" where
  "isASCII s = list_all (\<lambda>c. (of_char c :: nat) < 128) s"

definition lowerByte :: "char \<Rightarrow> char" where
  "lowerByte c =
     (let n = (of_char c :: nat) in if 65 \<le> n \<and> n \<le> 90 then char_of (n + 32) else c)"

definition ToLower :: "(string \<Rightarrow> string) \<Rightarrow> string \<Rightarrow> string" where
  "ToLower unicodeToLower s = (if isASCII s then map lowerByte s else unicodeToLower s)"

fun HasPrefix :: "string \<Rightarrow> string \<Rightarrow> bool" where
  "HasPrefix s [] = True"
| "HasPrefix [] (p # ps) = False"
| "HasPrefix (c # cs) (p # ps) = (c = p \<and> HasPrefix cs ps)"

text \<open>\<open>strings.Contains s substr\<close>: \<open>substr\<close> starts at some position of \<open>s\<close>.\<close>

fun Contains :: "string \<Rightarrow> string \<Rightarrow> bool" where
  "Contains [] substr = HasPrefix [] substr"
| "Contains (c # cs) substr = (HasPrefix (c # cs) substr \<or> Contains cs substr)"

subsection \<open>The conversion of an integer to \<open>float64\<close>\<close>

text \<open>
  \<open>float64(x)\<close> for an integer \<open>x\<close> is the nearest number with a significand of 53
  binary digits, a tie going to the even significand; integers below \<open>2^53\<close> in absolute
  value are kept. \<open>bitLen a\<close> is the number of binary digits of a positive \<open>a\<close>. The
  result is read as the real number it stands for.
\<close>

function bitLen :: "int \<Rightarrow> nat" where
  "bitLen a = (if a \<le> 0 then 0 else Suc (bitLen (a div 2)))"
  by pat_completeness auto
termination
  by (relation "measure nat") auto

declare bitLen.simps [simp del]

definition float64 :: "int \<Rightarrow> real" where
  "float64 x =
     (let a = \<bar>x\<bar>;
          e = bitLen a - 53;
          q = a div 2 ^ e;
          r = a mod 2 ^ e;
          q' = (if 2 * r > 2 ^ e \<or> (2 * r = 2 ^ e \<and> odd q) then q + 1 else q)
      in real_of_int (sgn x * q' * 2 ^ e))"

section \<open>internal/constants\<close>

definition DefaultNamespace :: string where
  "DefaultNamespace = ''GenKit/AWS''"

definition DefaultBufferSize :: int where
  "DefaultBufferSize = 20"

definition MaxMetricsPerRequest :: nat where
  "MaxMetricsPerRequest = 20"

section \<open>pkg/monitoring/config.go\<close>

text \<open>
  \<open>CustomDimensions\<close> is \<open>None\<close> for the nil map. \<open>MetricBufferSize\<close> is a Go \<open>int\<close>;
  it is only compared, never computed with, so it is an integer here.
\<close>

record Config =
  Namespace :: string
  EnableFlowMetrics :: bool
  EnableModelMetrics :: bool
  EnableXRayTracing :: bool
  CustomDimensions :: "go_map option"
  MetricBufferSize :: int

definition Validate :: "Config \<Rightarrow> error option" where
  "Validate c =
     (if Namespace c = '''' then Some ''namespace is required''
      else if MetricBufferSize c < 0 then Some ''metric_buffer_size must be non-negative''
      else None)"

text \<open>\<open>SetDefaults\<close> updates the configuration in place; the model returns the update.\<close>

definition SetDefaults :: "Config \<Rightarrow> Config" where
  "SetDefaults c =
     (let c1 = (if Namespace c = '''' then c\<lparr>Namespace := DefaultNamespace\<rparr> else c);
          c2 = (if \<not> EnableFlowMetrics c1 \<and> \<not> EnableModelMetrics c1 \<and> \<not> EnableXRayTracing c1
                then c1\<lparr>EnableFlowMetrics := True, EnableModelMetrics := True\<rparr>
                else if EnableXRayTracing c1 \<and> \<not> EnableFlowMetrics c1 \<and> \<not> EnableModelMetrics c1
                then c1\<lparr>EnableFlowMetrics := True, EnableModelMetrics := True\<rparr>
                else c1);
          c3 = (if MetricBufferSize c2 = 0 then c2\<lparr>MetricBufferSize := DefaultBufferSize\<rparr>
                else c2)
      in (if CustomDimensions c3 = None then c3\<lparr>CustomDimensions := Some []\<rparr> else c3))"

section \<open>pkg/monitoring/cloudwatch.go\<close>

subsection \<open>Data\<close>

datatype StandardUnit =
  StandardUnitSeconds | StandardUnitMilliseconds | StandardUnitCount | StandardUnitNone

record Dimension =
  Name :: string
  Value :: string

text \<open>
  \<open>types.MetricDatum\<close> with the fields \<open>putMetric\<close> sets (\<open>MetricValue\<close> is its field
  \<open>Value\<close>). A \<open>float64\<close> is read as the real number it stands for, an instant as a
  number of nanoseconds.
\<close>

record MetricDatum =
  MetricName :: string
  MetricValue :: real
  Unit :: StandardUnit
  Timestamp :: int
  Dimensions :: "Dimension list"

record PutMetricDataInput =
  InputNamespace :: string
  MetricData :: "MetricDatum list"

text \<open>
  The CloudWatch service behind \<open>cw.client\<close> is outside the program: given the requests
  made so far, each with its answer, it answers the next request with nil (\<open>None\<close>) or
  an error.
\<close>

type_synonym Service =
  "(PutMetricDataInput \<times> error option) list \<Rightarrow> PutMetricDataInput \<Rightarrow> error option"

text \<open>
  The struct \<open>CloudWatch\<close>. In place of the client it holds \<open>calls\<close>, the
  \<open>PutMetricData\<close> requests made through the client so far with their answers;
  \<open>bufferTicker\<close> says that the ticker is running, \<open>stopCh\<close> that the channel is
  closed, \<open>flushLoop\<close> that the goroutine running \<open>flushLoop\<close> was started, and
  \<open>flushes\<close> counts the flush goroutines \<open>putMetric\<close> has started that have not run
  yet.
\<close>

record CloudWatch =
  calls :: "(PutMetricDataInput \<times> error option) list"
  config :: Config
  namespace :: string
  metricBuffer :: "MetricDatum list"
  bufferTicker :: bool
  stopCh :: bool
  flushLoop :: bool
  flushes :: nat

definition PutMetricData ::
  "Service \<Rightarrow> CloudWatch \<Rightarrow> PutMetricDataInput \<Rightarrow> error option \<times> CloudWatch" where
  "PutMetricData svc cw inp =
     (let err = svc (calls cw) inp in (err, cw\<lparr>calls := calls cw @ [(inp, err)]\<rparr>))"

subsection \<open>Construction\<close>

text \<open>
  \<open>make([]types.MetricDatum, 0, n)\<close> panics with \<open>makeslice: cap out of range\<close> when
  \<open>n\<close> is negative or above the largest capacity the runtime allocates for a slice of this
  element type. That limit depends on the platform and on the size of the SDK's struct, so
  it is the argument \<open>maxCap\<close>. Otherwise the constructor returns the instance and a nil
  error, with the ticker and the flush loop started. The configuration is the caller's,
  updated by \<open>SetDefaults\<close>.
\<close>

definition NewCloudWatch :: "int \<Rightarrow> Config \<Rightarrow> (CloudWatch \<times> error option) outcome" where
  "NewCloudWatch maxCap config0 =
     (let c = SetDefaults config0 in
      if MetricBufferSize c < 0 \<or> maxCap < MetricBufferSize c
      then Panic ''makeslice: cap out of range''
      else Return
        (\<lparr>calls = [], config = c, namespace = Namespace c, metricBuffer = [],
          bufferTicker = True, stopCh = False, flushLoop = True, flushes = 0\<rparr>, None))"

subsection \<open>The buffer under its mutex\<close>

text \<open>
  The two sections that run under \<open>bufferMutex\<close>: the append of \<open>putMetric\<close> (line 135)
  and of the retry path (line 192), and the section at the head of \<open>flushMetrics\<close>
  (lines 165 to 169) that copies the buffer and truncates it.
\<close>

definition appendBuffer :: "MetricDatum list \<Rightarrow> CloudWatch \<Rightarrow> CloudWatch" where
  "appendBuffer ms cw = cw\<lparr>metricBuffer := metricBuffer cw @ ms\<rparr>"

definition swapBuffer :: "CloudWatch \<Rightarrow> MetricDatum list \<times> CloudWatch" where
  "swapBuffer cw = (metricBuffer cw, cw\<lparr>metricBuffer := []\<rparr>)"

subsection \<open>putMetric\<close>

text \<open>\<open>now\<close> is the reading of \<open>time.Now()\<close>.\<close>

definition putMetric ::
  "int \<Rightarrow> string \<Rightarrow> real \<Rightarrow> Dimension list \<Rightarrow> CloudWatch \<Rightarrow> CloudWatch" where
  "putMetric now metricName v dimensions cw =
     (let metric = \<lparr>MetricName = metricName, MetricValue = v, Unit = StandardUnitCount,
                     Timestamp = now, Dimensions = dimensions\<rparr>;
          cw1 = appendBuffer [metric] cw
      in if int (length (metricBuffer cw1)) \<ge> MetricBufferSize (config cw1)
         then cw1\<lparr>flushes := Suc (flushes cw1)\<rparr>
         else cw1)"

subsection \<open>flushMetrics\<close>

text \<open>
  The loop of \<open>flushMetrics\<close> from index \<open>i\<close>: it returns at the first request that
  fails, after appending that batch to the buffer.
\<close>

function sendBatches ::
  "Service \<Rightarrow> MetricDatum list \<Rightarrow> nat \<Rightarrow> CloudWatch \<Rightarrow> error option \<times> CloudWatch" where
  "sendBatches svc metricsToSend i cw =
     (if i < length metricsToSend then
        (let endIdx = (if i + MaxMetricsPerRequest > length metricsToSend
                       then length metricsToSend else i + MaxMetricsPerRequest);
             batch = slice metricsToSend i endIdx;
             r = PutMetricData svc cw \<lparr>InputNamespace = namespace cw, MetricData = batch\<rparr>
         in (case fst r of
               Some err \<Rightarrow> (Some err, appendBuffer batch (snd r))
             | None \<Rightarrow> sendBatches svc metricsToSend (i + MaxMetricsPerRequest) (snd r)))
      else (None, cw))"
  by pat_completeness auto
termination
  by (relation "measure (\<lambda>(svc, metricsToSend, i, cw). length metricsToSend - i)")
     (auto simp: MaxMetricsPerRequest_def)

declare sendBatches.simps [simp del]

definition flushMetrics :: "Service \<Rightarrow> CloudWatch \<Rightarrow> error option \<times> CloudWatch" where
  "flushMetrics svc cw =
     (let (metricsToSend, cw1) = swapBuffer cw in
      if length metricsToSend = 0 then (None, cw1)
      else sendBatches svc metricsToSend 0 cw1)"

subsection \<open>Close\<close>

text \<open>Closing \<open>stopCh\<close> a second time panics.\<close>

definition Close :: "Service \<Rightarrow> CloudWatch \<Rightarrow> (error option \<times> CloudWatch) outcome" where
  "Close svc cw =
     (if stopCh cw then Panic ''close of closed channel''
      else Return (flushMetrics svc (cw\<lparr>stopCh := True, bufferTicker := False\<rparr>)))"

subsection \<open>Dimensions and the error type\<close>

definition buildDimensions ::
  "(go_map \<Rightarrow> go_map) \<Rightarrow> CloudWatch \<Rightarrow> go_map \<Rightarrow> Dimension list" where
  "buildDimensions visit cw dimensions =
     map (\<lambda>(name, v). \<lparr>Name = name, Value = v\<rparr>)
       (visit (case CustomDimensions (config cw) of None \<Rightarrow> [] | Some m \<Rightarrow> m))
     @ map (\<lambda>(name, v). \<lparr>Name = name, Value = v\<rparr>) (visit dimensions)"

definition contains :: "(string \<Rightarrow> string) \<Rightarrow> string \<Rightarrow> string \<Rightarrow> bool" where
  "contains unicodeToLower s substr =
     Contains (ToLower unicodeToLower s) (ToLower unicodeToLower substr)"

definition getErrorType :: "(string \<Rightarrow> string) \<Rightarrow> error option \<Rightarrow> string" where
  "getErrorType unicodeToLower err =
     (case err of
        None \<Rightarrow> ''Unknown''
      | Some errStr \<Rightarrow>
          if contains unicodeToLower errStr ''timeout'' then ''Timeout''
          else if contains unicodeToLower errStr ''connection'' then ''Connection''
          else if contains unicodeToLower errStr ''auth'' then ''Authentication''
          else if contains unicodeToLower errStr ''throttle'' then ''Throttling''
          else if contains unicodeToLower errStr ''rate'' then ''RateLimit''
          else ''GenericError'')"

subsection \<open>The hooks\<close>

text \<open>
  A \<open>time.Duration\<close> is a number of nanoseconds; \<open>Milliseconds\<close> divides by a million,
  rounding towards zero. \<open>OnFlowError\<close> passes \<open>unicodeToLower\<close> on to \<open>getErrorType\<close>.
\<close>

definition Milliseconds :: "int \<Rightarrow> int" where
  "Milliseconds d = sgn d * (\<bar>d\<bar> div 1000000)"

definition OnFlowStart ::
  "(go_map \<Rightarrow> go_map) \<Rightarrow> int \<Rightarrow> string \<Rightarrow> CloudWatch \<Rightarrow> CloudWatch" where
  "OnFlowStart visit now flowName cw =
     (if \<not> EnableFlowMetrics (config cw) then cw
      else
        (let dimensions = buildDimensions visit cw [(''FlowName'', flowName)]
         in putMetric now ''FlowStarted'' 1 dimensions cw))"

definition OnFlowEnd ::
  "(go_map \<Rightarrow> go_map) \<Rightarrow> int \<Rightarrow> int \<Rightarrow> string \<Rightarrow> int \<Rightarrow> CloudWatch \<Rightarrow> CloudWatch" where
  "OnFlowEnd visit now1 now2 flowName duration cw =
     (if \<not> EnableFlowMetrics (config cw) then cw
      else
        (let dimensions =
               buildDimensions visit cw [(''FlowName'', flowName), (''Status'', ''Success'')];
             cw1 = putMetric now1 ''FlowCompleted'' 1 dimensions cw
         in putMetric now2 ''FlowDuration'' (float64 (Milliseconds duration)) dimensions cw1))"

definition OnFlowError ::
  "(go_map \<Rightarrow> go_map) \<Rightarrow> (string \<Rightarrow> string) \<Rightarrow> int \<Rightarrow> int \<Rightarrow> string \<Rightarrow> int
     \<Rightarrow> error option \<Rightarrow> CloudWatch \<Rightarrow> CloudWatch" where
  "OnFlowError visit unicodeToLower now1 now2 flowName duration err cw =
     (if \<not> EnableFlowMetrics (config cw) then cw
      else
        (let dimensions =
               buildDimensions visit cw
                 [(''FlowName'', flowName), (''Status'', ''Error''),
                  (''ErrorType'', getErrorType unicodeToLower err)];
             cw1 = putMetric now1 ''FlowError'' 1 dimensions cw
         in putMetric now2 ''FlowDuration'' (float64 (Milliseconds duration)) dimensions cw1))"

definition OnGenerate ::
  "(go_map \<Rightarrow> go_map) \<Rightarrow> int \<Rightarrow> int \<Rightarrow> int \<Rightarrow> string \<Rightarrow> int \<Rightarrow> int \<Rightarrow> CloudWatch
     \<Rightarrow> CloudWatch" where
  "OnGenerate visit now1 now2 now3 modelID tokensUsed duration cw =
     (if \<not> EnableModelMetrics (config cw) then cw
      else
        (let dimensions = buildDimensions visit cw [(''ModelID'', modelID)];
             cw1 = putMetric now1 ''TokensUsed'' (float64 tokensUsed) dimensions cw;
             cw2 = putMetric now2 ''GenerationDuration'' (float64 (Milliseconds duration))
                     dimensions cw1
         in putMetric now3 ''GenerationCount'' 1 dimensions cw2))"

section \<open>Notions used to state the properties\<close>

subsection \<open>The batches of a flush pass\<close>

text \<open>
  The loop of \<open>flushMetrics\<close> visits the indices \<open>0, 20, 40, ...\<close> below the number of
  metrics; \<open>batch ms k\<close> is the value of its variable \<open>batch\<close> in round \<open>k\<close>, where
  \<open>i = k * MaxMetricsPerRequest\<close>, and \<open>batchCount ms\<close> the number of rounds of a loop
  that is not left early. \<open>request\<close> is the input the loop builds for a batch,
  \<open>delivered\<close> the entries of \<open>calls\<close> for the rounds \<open>ks\<close> when each was answered
  with nil, and \<open>sentBatches\<close> the batches of the requests made between two states.
\<close>

definition batch :: "MetricDatum list \<Rightarrow> nat \<Rightarrow> MetricDatum list" where
  "batch ms k =
     slice ms (k * MaxMetricsPerRequest)
       (min (k * MaxMetricsPerRequest + MaxMetricsPerRequest) (length ms))"

definition batchCount :: "MetricDatum list \<Rightarrow> nat" where
  "batchCount ms = (length ms + MaxMetricsPerRequest - 1) div MaxMetricsPerRequest"

definition request :: "CloudWatch \<Rightarrow> MetricDatum list \<Rightarrow> PutMetricDataInput" where
  "request cw b = \<lparr>InputNamespace = namespace cw, MetricData = b\<rparr>"

definition delivered ::
  "CloudWatch \<Rightarrow> MetricDatum list \<Rightarrow> nat list \<Rightarrow> (PutMetricDataInput \<times> error option) list" where
  "delivered cw ms ks = map (\<lambda>k. (request cw (batch ms k), None)) ks"

definition sentBatches :: "CloudWatch \<Rightarrow> CloudWatch \<Rightarrow> MetricDatum list list" where
  "sentBatches cw cw' = map (\<lambda>c. MetricData (fst c)) (drop (length (calls cw)) (calls cw'))"

text \<open>
  \<open>answer svc cw ms k\<close> is what the service answers to the request for batch \<open>k\<close> when the
  requests of the instance so far are followed by the accepted batches \<open>0\<close> to \<open>k - 1\<close>.
\<close>

definition answer :: "Service \<Rightarrow> CloudWatch \<Rightarrow> MetricDatum list \<Rightarrow> nat \<Rightarrow> error option" where
  "answer svc cw ms k = svc (calls cw @ delivered cw ms [0..<k]) (request cw (batch ms k))"

subsection \<open>Runs of the sections under the mutex\<close>

text \<open>
  The mutex lets the sections that touch the buffer run one at a time, in some order.
  A run is a list of them: \<open>Append ms\<close> for an append of the points \<open>ms\<close>, \<open>Swap\<close> for
  the copy and truncation at the head of a flush. \<open>runOps\<close> returns what the swaps of
  the run took, in order, and the final state; \<open>appended\<close> is the sequence of all points
  the run appended.
\<close>

datatype bufferOp = Append "MetricDatum list" | Swap

fun runOps :: "bufferOp list \<Rightarrow> CloudWatch \<Rightarrow> MetricDatum list list \<times> CloudWatch" where
  "runOps [] cw = ([], cw)"
| "runOps (Append ms # ops) cw = runOps ops (appendBuffer ms cw)"
| "runOps (Swap # ops) cw =
     (let (taken, cw1) = swapBuffer cw; (more, cw2) = runOps ops cw1
      in (taken # more, cw2))"

fun appended :: "bufferOp list \<Rightarrow> MetricDatum list" where
  "appended [] = []"
| "appended (Append ms # ops) = ms @ appended ops"
| "appended (Swap # ops) = appended ops"

subsection \<open>The classifier as the specification words it\<close>

text \<open>
  An ordered list of rules from keyword to category; the first rule whose keyword occurs
  in the error text, letters compared without regard to case, gives the category. For a
  text of ASCII bytes this is said without any lowering: \<open>sameLetter c k\<close> holds when the
  byte \<open>c\<close> of the text is the keyword's letter \<open>k\<close> or its capital, by the table of the
  26 letters, and the keyword occurs when some suffix of the text starts with bytes that
  are the same letters as the keyword's. For any other text the keyword is looked for in
  the text as the Unicode tables lower it.
\<close>

definition classifyRules :: "(string \<times> string) list" where
  "classifyRules =
     [(''timeout'', ''Timeout''), (''connection'', ''Connection''),
      (''auth'', ''Authentication''), (''throttle'', ''Throttling''), (''rate'', ''RateLimit'')]"

definition capitalOf :: "char \<Rightarrow> char option" where
  "capitalOf = map_of (zip ''abcdefghijklmnopqrstuvwxyz'' ''ABCDEFGHIJKLMNOPQRSTUVWXYZ'')"

definition sameLetter :: "char \<Rightarrow> char \<Rightarrow> bool" where
  "sameLetter c k = (c = k \<or> capitalOf k = Some c)"

definition occursIgnoringCase :: "string \<Rightarrow> string \<Rightarrow> bool" where
  "occursIgnoringCase keyword s =
     list_ex (\<lambda>t. list_all2 sameLetter (take (length keyword) t) keyword) (suffixes s)"

definition classify :: "(string \<Rightarrow> string) \<Rightarrow> error option \<Rightarrow> string" where
  "classify unicodeToLower err =
     (case err of
        None \<Rightarrow> ''Unknown''
      | Some s \<Rightarrow>
          (case find (\<lambda>(keyword, category).
                        if isASCII s then occursIgnoringCase keyword s
                        else sublist keyword (unicodeToLower s)) classifyRules of
             Some (keyword, category) \<Rightarrow> category
           | None \<Rightarrow> ''GenericError''))"

subsection \<open>Concrete inputs\<close>

text \<open>
  A running instance with the default configuration and the buffer \<open>ms\<close>, simple points
  that differ in their time stamps, and a service that rejects the first request it
  receives and accepts every later one.
\<close>

definition exampleConfig :: Config where
  "exampleConfig =
     \<lparr>Namespace = ''GenKit/AWS'', EnableFlowMetrics = True, EnableModelMetrics = True,
      EnableXRayTracing = False, CustomDimensions = Some [], MetricBufferSize = 20\<rparr>"

definition exampleCW :: "MetricDatum list \<Rightarrow> CloudWatch" where
  "exampleCW ms =
     \<lparr>calls = [], config = exampleConfig, namespace = ''GenKit/AWS'', metricBuffer = ms,
      bufferTicker = True, stopCh = False, flushLoop = True, flushes = 0\<rparr>"

definition examplePoint :: "nat \<Rightarrow> MetricDatum" where
  "examplePoint n =
     \<lparr>MetricName = ''FlowStarted'', MetricValue = 1, Unit = StandardUnitCount,
      Timestamp = int n, Dimensions = []\<rparr>"

definition rejectFirst :: Service where
  "rejectFirst history inp = (if history = [] then Some ''service unavailable'' else None)"

text \<open>
  The zero value of \<open>Config\<close>, and a capacity limit for the examples: \<open>2^48\<close> bytes of
  address space over elements of 128 bytes.
\<close>

definition zeroConfig :: Config where
  "zeroConfig =
     \<lparr>Namespace = '''', EnableFlowMetrics = False, EnableModelMetrics = False,
      EnableXRayTracing = False, CustomDimensions = None, MetricBufferSize = 0\<rparr>"

definition exampleMaxCap :: int where
  "exampleMaxCap = 2199023255552"

section \<open>The error classifier\<close>

lemma HasPrefix_prefix: "HasPrefix s p = prefix p s"
  by (induction s p rule: HasPrefix.induct) auto

lemma Contains_sublist: "Contains s substr = sublist substr s"
  by (induction s) (auto simp: HasPrefix_prefix sublist_Cons_right)

lemma lowerByte_eq_lower:
  assumes "97 \<le> (of_char k :: nat)" "(of_char k :: nat) \<le> 122"
  shows "lowerByte c = k \<longleftrightarrow> (c = k \<or> c = char_of ((of_char k :: nat) - 32))"
proof -
  let ?n = "of_char c :: nat" and ?m = "of_char k :: nat"
  show ?thesis
  proof (cases "65 \<le> ?n \<and> ?n \<le> 90")
    case True
    then have "lowerByte c = char_of (?n + 32)" by (simp add: lowerByte_def)
    moreover have "char_of (?n + 32) = k \<longleftrightarrow> ?n + 32 = ?m"
    proof
      assume "char_of (?n + 32) = k"
      then have "of_char (char_of (?n + 32) :: char) = ?m" by simp
      then show "?n + 32 = ?m" using True by (simp add: of_char_of)
    next
      assume "?n + 32 = ?m"
      then have "char_of (?n + 32) = (char_of ?m :: char)" by simp
      then show "char_of (?n + 32) = k" by (simp only: char_of_char)
    qed
    moreover have "?n + 32 = ?m \<longleftrightarrow> c = char_of (?m - 32)"
    proof
      assume "?n + 32 = ?m"
      then have "?m - 32 = ?n" by simp
      then show "c = char_of (?m - 32)" by (simp only: char_of_char)
    next
      assume "c = char_of (?m - 32)"
      then have "?n = of_char (char_of (?m - 32) :: char)" by simp
      then show "?n + 32 = ?m" using assms by (simp add: of_char_of)
    qed
    moreover have "c \<noteq> k" using True assms by auto
    ultimately show ?thesis by simp
  next
    case False
    then have l: "lowerByte c = c" by (auto simp: lowerByte_def)
    have "c \<noteq> char_of (?m - 32)"
    proof
      assume "c = char_of (?m - 32)"
      then have "?n = of_char (char_of (?m - 32) :: char)" by simp
      then have "?n = ?m - 32" using assms by (simp add: of_char_of)
      with assms False show False by arith
    qed
    with l show ?thesis by auto
  qed
qed

lemma lower_letters:
  "list_all (\<lambda>k. 97 \<le> (of_char k :: nat) \<and> (of_char k :: nat) \<le> 122
       \<and> capitalOf k = Some (char_of ((of_char k :: nat) - 32)))
     ''abcdefghijklmnopqrstuvwxyz''"
  by code_simp

lemma lowerByte_sameLetter:
  assumes "k \<in> set ''abcdefghijklmnopqrstuvwxyz''"
  shows "lowerByte c = k \<longleftrightarrow> sameLetter c k"
proof -
  from lower_letters assms
  have "97 \<le> (of_char k :: nat) \<and> (of_char k :: nat) \<le> 122
       \<and> capitalOf k = Some (char_of ((of_char k :: nat) - 32))"
    unfolding list_all_iff by blast
  with lowerByte_eq_lower[of k c] show ?thesis
    by (auto simp: sameLetter_def)
qed

lemma HasPrefix_map_lowerByte:
  "set keyword \<subseteq> set ''abcdefghijklmnopqrstuvwxyz'' \<Longrightarrow>
   HasPrefix (map lowerByte t) keyword
     = list_all2 sameLetter (take (length keyword) t) keyword"
proof (induction t arbitrary: keyword)
  case Nil
  then show ?case by (cases keyword) simp_all
next
  case (Cons c t)
  show ?case
  proof (cases keyword)
    case Nil
    then show ?thesis by simp
  next
    case (Cons k ks)
    with Cons.prems have k: "k \<in> set ''abcdefghijklmnopqrstuvwxyz''"
      and ks: "set ks \<subseteq> set ''abcdefghijklmnopqrstuvwxyz''"
      by simp_all
    from Cons.IH[OF ks] lowerByte_sameLetter[OF k, of c] Cons show ?thesis
      by simp
  qed
qed

lemma Contains_map_lowerByte:
  "set keyword \<subseteq> set ''abcdefghijklmnopqrstuvwxyz'' \<Longrightarrow>
   Contains (map lowerByte s) keyword = occursIgnoringCase keyword s"
proof (induction s)
  case Nil
  then show ?case
    by (cases keyword) (simp_all add: occursIgnoringCase_def)
next
  case (Cons c s)
  from Cons.IH[OF Cons.prems] HasPrefix_map_lowerByte[OF Cons.prems, of "c # s"]
  show ?case
    by (auto simp: occursIgnoringCase_def)
qed

lemma occursIgnoringCase_iff:
  "occursIgnoringCase keyword s
     \<longleftrightarrow> (\<exists>ps t ss. s = ps @ t @ ss \<and> list_all2 sameLetter t keyword)"
proof
  assume "occursIgnoringCase keyword s"
  then obtain u where u: "suffix u s"
    and m: "list_all2 sameLetter (take (length keyword) u) keyword"
    by (auto simp: occursIgnoringCase_def list_ex_iff)
  from u obtain ps where "s = ps @ u" by (auto simp: suffix_def)
  then have "s = ps @ take (length keyword) u @ drop (length keyword) u" by simp
  with m show "\<exists>ps t ss. s = ps @ t @ ss \<and> list_all2 sameLetter t keyword" by blast
next
  assume "\<exists>ps t ss. s = ps @ t @ ss \<and> list_all2 sameLetter t keyword"
  then obtain ps t ss where s: "s = ps @ t @ ss" and m: "list_all2 sameLetter t keyword"
    by blast
  from m have "length t = length keyword" by (rule list_all2_lengthD)
  then have "take (length keyword) (t @ ss) = t" by simp
  with m have "list_all2 sameLetter (take (length keyword) (t @ ss)) keyword" by simp
  moreover from s have "t @ ss \<in> set (suffixes s)" by (simp add: suffix_def)
  ultimately show "occursIgnoringCase keyword s"
    unfolding occursIgnoringCase_def list_ex_iff by blast
qed

lemma keywords_lower:
  "set ''timeout'' \<subseteq> set ''abcdefghijklmnopqrstuvwxyz''"
  "set ''connection'' \<subseteq> set ''abcdefghijklmnopqrstuvwxyz''"
  "set ''auth'' \<subseteq> set ''abcdefghijklmnopqrstuvwxyz''"
  "set ''throttle'' \<subseteq> set ''abcdefghijklmnopqrstuvwxyz''"
  "set ''rate'' \<subseteq> set ''abcdefghijklmnopqrstuvwxyz''"
  by simp_all

lemma ToLower_keywords:
  "ToLower u ''timeout'' = ''timeout''" "ToLower u ''connection'' = ''connection''"
  "ToLower u ''auth'' = ''auth''" "ToLower u ''throttle'' = ''throttle''"
  "ToLower u ''rate'' = ''rate''"
  by code_simp+

lemma contains_keyword:
  "contains u s ''timeout'' = Contains (ToLower u s) ''timeout''"
  "contains u s ''connection'' = Contains (ToLower u s) ''connection''"
  "contains u s ''auth'' = Contains (ToLower u s) ''auth''"
  "contains u s ''throttle'' = Contains (ToLower u s) ''throttle''"
  "contains u s ''rate'' = Contains (ToLower u s) ''rate''"
  by (simp_all only: contains_def ToLower_keywords)

lemma contains_ascii:
  assumes "isASCII s"
  shows "contains u s ''timeout'' = occursIgnoringCase ''timeout'' s"
    "contains u s ''connection'' = occursIgnoringCase ''connection'' s"
    "contains u s ''auth'' = occursIgnoringCase ''auth'' s"
    "contains u s ''throttle'' = occursIgnoringCase ''throttle'' s"
    "contains u s ''rate'' = occursIgnoringCase ''rate'' s"
proof -
  from assms have l: "ToLower u s = map lowerByte s" by (simp add: ToLower_def)
  show "contains u s ''timeout'' = occursIgnoringCase ''timeout'' s"
    unfolding contains_keyword l by (rule Contains_map_lowerByte[OF keywords_lower(1)])
  show "contains u s ''connection'' = occursIgnoringCase ''connection'' s"
    unfolding contains_keyword l by (rule Contains_map_lowerByte[OF keywords_lower(2)])
  show "contains u s ''auth'' = occursIgnoringCase ''auth'' s"
    unfolding contains_keyword l by (rule Contains_map_lowerByte[OF keywords_lower(3)])
  show "contains u s ''throttle'' = occursIgnoringCase ''throttle'' s"
    unfolding contains_keyword l by (rule Contains_map_lowerByte[OF keywords_lower(4)])
  show "contains u s ''rate'' = occursIgnoringCase ''rate'' s"
    unfolding contains_keyword l by (rule Contains_map_lowerByte[OF keywords_lower(5)])
qed

lemma contains_other:
  assumes "\<not> isASCII s"
  shows "contains u s ''timeout'' = sublist ''timeout'' (u s)"
    "contains u s ''connection'' = sublist ''connection'' (u s)"
    "contains u s ''auth'' = sublist ''auth'' (u s)"
    "contains u s ''throttle'' = sublist ''throttle'' (u s)"
    "contains u s ''rate'' = sublist ''rate'' (u s)"
proof -
  from assms have l: "ToLower u s = u s" by (simp add: ToLower_def)
  show "contains u s ''timeout'' = sublist ''timeout'' (u s)"
    "contains u s ''connection'' = sublist ''connection'' (u s)"
    "contains u s ''auth'' = sublist ''auth'' (u s)"
    "contains u s ''throttle'' = sublist ''throttle'' (u s)"
    "contains u s ''rate'' = sublist ''rate'' (u s)"
    unfolding contains_keyword l by (rule Contains_sublist)+
qed

lemma getErrorType_classify: "getErrorType u err = classify u err"
proof (cases err)
  case None
  then show ?thesis by (simp add: getErrorType_def classify_def)
next
  case (Some s)
  show ?thesis
  proof (cases "isASCII s")
    case True
    with Some show ?thesis
      by (simp add: getErrorType_def classify_def classifyRules_def contains_ascii)
  next
    case False
    with Some show ?thesis
      by (simp add: getErrorType_def classify_def classifyRules_def contains_other)
  qed
qed

lemma getErrorType_examples:
  "getErrorType u (Some ''connection refused'') = ''Connection''"
  "getErrorType u (Some ''request TIMEOUT'') = ''Timeout''"
  "getErrorType u (Some ''banana'') = ''GenericError''"
  "getErrorType u (Some ''CONNECTION REFUSED'') = ''Connection''"
  "getErrorType u (Some ''Connection Timeout'') = ''Timeout''"
  by code_simp+

text \<open>
  A text with a byte of 128 or more is classified by what the Unicode lowering makes of it;
  a text of bytes up to 127 never reaches that lowering. The first text is \<open>T\<close>, the two
  bytes of U+0130 and \<open>MEOUT\<close>.
\<close>

lemma getErrorType_other_examples:
  "getErrorType (\<lambda>s. ''timeout'')
     (Some [CHR 0x54, CHR 0xC4, CHR 0xB0, CHR 0x4D, CHR 0x45, CHR 0x4F, CHR 0x55, CHR 0x54])
     = ''Timeout''"
  "getErrorType (\<lambda>s. ''timeout'') (Some [CHR 0x80]) = ''Timeout''"
  "getErrorType (\<lambda>s. ''timeout'') (Some [CHR 0x7F]) = ''GenericError''"
  by code_simp+

text \<open>
  C6. The classifier is a total function of the error alone. It maps the nil error to
  \<open>Unknown\<close>. For an error with text \<open>s\<close> it agrees with the ordered rule list of the
  specification: the first rule whose keyword occurs in \<open>s\<close> without regard to the case of
  the letters gives the category, and \<open>GenericError\<close> is the result when no rule matches,
  so the result is one of the five categories or \<open>GenericError\<close>. A keyword occurs in a
  text when a part of the text has, byte for byte, the keyword's letters or their
  capitals; a text that is not ASCII is searched as the Unicode tables lower it. The three
  example texts are classified as the specification says.
\<close>

theorem getErrorType_classifier:
  "getErrorType unicodeToLower None = ''Unknown''
   \<and> getErrorType unicodeToLower err = classify unicodeToLower err
   \<and> (occursIgnoringCase keyword s
        \<longleftrightarrow> (\<exists>ps t ss. s = ps @ t @ ss \<and> list_all2 sameLetter t keyword))
   \<and> getErrorType unicodeToLower (Some s) \<in>
       {''Timeout'', ''Connection'', ''Authentication'', ''Throttling'', ''RateLimit'',
        ''GenericError''}
   \<and> getErrorType unicodeToLower (Some ''connection refused'') = ''Connection''
   \<and> getErrorType unicodeToLower (Some ''request TIMEOUT'') = ''Timeout''
   \<and> getErrorType unicodeToLower (Some ''banana'') = ''GenericError''
   \<and> getErrorType unicodeToLower (Some ''CONNECTION REFUSED'') = ''Connection''
   \<and> getErrorType unicodeToLower (Some ''Connection Timeout'') = ''Timeout''
   \<and> getErrorType (\<lambda>s. ''timeout'')
        (Some [CHR 0x54, CHR 0xC4, CHR 0xB0, CHR 0x4D, CHR 0x45, CHR 0x4F, CHR 0x55, CHR 0x54])
        = ''Timeout''
   \<and> getErrorType (\<lambda>s. ''timeout'') (Some [CHR 0x80]) = ''Timeout''
   \<and> getErrorType (\<lambda>s. ''timeout'') (Some [CHR 0x7F]) = ''GenericError''"
proof -
  have nil: "getErrorType unicodeToLower None = ''Unknown''"
    by (simp add: getErrorType_def)
  have cats: "getErrorType unicodeToLower (Some s) \<in>
       {''Timeout'', ''Connection'', ''Authentication'', ''Throttling'', ''RateLimit'',
        ''GenericError''}"
    by (simp add: getErrorType_def)
  from nil cats occursIgnoringCase_iff[of keyword s] show ?thesis
    by (simp only: getErrorType_classify [symmetric] getErrorType_examples
          getErrorType_other_examples simp_thms)
qed

section \<open>The flush pass\<close>

subsection \<open>The loop, round by round\<close>

lemma batch_index: "k * MaxMetricsPerRequest < length ms \<longleftrightarrow> k < batchCount ms"
  unfolding batchCount_def MaxMetricsPerRequest_def by arith

lemma endIdx_min:
  "(if i + MaxMetricsPerRequest > n then n else i + MaxMetricsPerRequest)
     = min (i + MaxMetricsPerRequest) n"
  by (simp add: min_def)

lemma sendBatches_step:
  "sendBatches svc ms (k * MaxMetricsPerRequest) cw =
     (if k < batchCount ms then
        (case svc (calls cw) (request cw (batch ms k)) of
           Some e \<Rightarrow> (Some e, cw\<lparr>calls := calls cw @ [(request cw (batch ms k), Some e)],
                                 metricBuffer := metricBuffer cw @ batch ms k\<rparr>)
         | None \<Rightarrow> sendBatches svc ms (Suc k * MaxMetricsPerRequest)
                     (cw\<lparr>calls := calls cw @ [(request cw (batch ms k), None)]\<rparr>))
      else (None, cw))"
  apply (subst sendBatches.simps)
  apply (simp only: endIdx_min batch_index batch_def[symmetric] request_def[symmetric] Let_def)
  apply (simp add: PutMetricData_def appendBuffer_def Let_def add.commute split: option.splits)
  done

lemma sendBatches_stop:
  "\<not> k < batchCount ms \<Longrightarrow> sendBatches svc ms (k * MaxMetricsPerRequest) cw = (None, cw)"
  by (subst sendBatches_step) simp

lemma sendBatches_fail:
  "k < batchCount ms \<Longrightarrow> svc (calls cw) (request cw (batch ms k)) = Some e \<Longrightarrow>
   sendBatches svc ms (k * MaxMetricsPerRequest) cw =
     (Some e, cw\<lparr>calls := calls cw @ [(request cw (batch ms k), Some e)],
                 metricBuffer := metricBuffer cw @ batch ms k\<rparr>)"
  by (subst sendBatches_step) simp

lemma sendBatches_next:
  "k < batchCount ms \<Longrightarrow> svc (calls cw) (request cw (batch ms k)) = None \<Longrightarrow>
   sendBatches svc ms (k * MaxMetricsPerRequest) cw =
     sendBatches svc ms (Suc k * MaxMetricsPerRequest)
       (cw\<lparr>calls := calls cw @ [(request cw (batch ms k), None)]\<rparr>)"
  by (subst sendBatches_step) simp

lemma sendBatches_run:
  "sendBatches svc ms (k0 * MaxMetricsPerRequest) cw = (err, cw') \<Longrightarrow>
     (case err of
        None \<Rightarrow> cw' = cw\<lparr>calls := calls cw @ delivered cw ms [k0..<batchCount ms]\<rparr>
      | Some e \<Rightarrow> (\<exists>k. k0 \<le> k \<and> k < batchCount ms \<and>
           cw' = cw\<lparr>calls := calls cw @ delivered cw ms [k0..<k] @ [(request cw (batch ms k), Some e)],
                     metricBuffer := metricBuffer cw @ batch ms k\<rparr>))"
proof (induction "batchCount ms - k0" arbitrary: k0 cw)
  case 0
  then have ge: "\<not> k0 < batchCount ms" by simp
  have "(None, cw) = (err, cw')"
    using "0.prems" unfolding sendBatches_stop[OF ge] .
  then have "err = None" "cw' = cw" by auto
  with ge show ?case by (simp add: delivered_def)
next
  case (Suc d)
  then have lt: "k0 < batchCount ms" by simp
  let ?inp = "request cw (batch ms k0)"
  show ?case
  proof (cases "svc (calls cw) ?inp")
    case (Some e)
    have "(Some e, cw\<lparr>calls := calls cw @ [(?inp, Some e)],
                 metricBuffer := metricBuffer cw @ batch ms k0\<rparr>) = (err, cw')"
      using Suc.prems unfolding sendBatches_fail[of k0 ms svc cw e, OF lt Some] .
    then have "err = Some e"
      and "cw' = cw\<lparr>calls := calls cw @ [(?inp, Some e)], metricBuffer := metricBuffer cw @ batch ms k0\<rparr>"
      by auto
    with lt show ?thesis by (simp add: delivered_def) (rule exI[of _ k0], simp)
  next
    case None
    let ?cw1 = "cw\<lparr>calls := calls cw @ [(?inp, None)]\<rparr>"
    have run: "sendBatches svc ms (Suc k0 * MaxMetricsPerRequest) ?cw1 = (err, cw')"
      using Suc.prems unfolding sendBatches_next[of k0 ms svc cw, OF lt None] .
    from Suc.hyps(2) lt have d: "d = batchCount ms - Suc k0" by simp
    have same: "delivered ?cw1 ms ks = delivered cw ms ks" "request ?cw1 b = request cw b" for ks b
      by (simp_all add: delivered_def request_def)
    have upt: "[k0..<batchCount ms] = k0 # [Suc k0..<batchCount ms]"
      using lt by (simp add: upt_conv_Cons)
    note IH = Suc.hyps(1)[OF d run]
    show ?thesis
    proof (cases err)
      case None
      with IH have "cw' = ?cw1\<lparr>calls := calls ?cw1 @ delivered cw ms [Suc k0..<batchCount ms]\<rparr>"
        by (simp add: same)
      then show ?thesis using None
        by (simp add: upt delivered_def)
    next
      case (Some e)
      with IH obtain k where k: "Suc k0 \<le> k" "k < batchCount ms"
        and cw': "cw' = ?cw1\<lparr>calls := calls ?cw1 @ delivered cw ms [Suc k0..<k] @ [(request cw (batch ms k), Some e)],
                     metricBuffer := metricBuffer ?cw1 @ batch ms k\<rparr>"
        by (auto simp: same)
      from k have upt': "[k0..<k] = k0 # [Suc k0..<k]" by (simp add: upt_conv_Cons)
      have "k0 \<le> k \<and> k < batchCount ms \<and>
           cw' = cw\<lparr>calls := calls cw @ delivered cw ms [k0..<k] @ [(request cw (batch ms k), Some e)],
                     metricBuffer := metricBuffer cw @ batch ms k\<rparr>"
        using k cw' by (simp add: upt' delivered_def)
      then show ?thesis using Some by auto
    qed
  qed
qed

lemma flushMetrics_sendBatches:
  "flushMetrics svc cw = sendBatches svc (metricBuffer cw) (0 * MaxMetricsPerRequest) (cw\<lparr>metricBuffer := []\<rparr>)"
proof (cases "metricBuffer cw = []")
  case True
  then have "\<not> 0 < batchCount (metricBuffer cw)"
    by (simp add: batchCount_def MaxMetricsPerRequest_def)
  from sendBatches_stop[OF this] True show ?thesis
    by (simp add: flushMetrics_def swapBuffer_def)
next
  case False
  then show ?thesis by (simp add: flushMetrics_def swapBuffer_def)
qed

lemma flushMetrics_ok:
  assumes "flushMetrics svc cw = (None, cw')"
  shows "cw' = cw\<lparr>calls := calls cw @ delivered cw (metricBuffer cw) [0..<batchCount (metricBuffer cw)],
                   metricBuffer := []\<rparr>"
proof -
  from assms have "sendBatches svc (metricBuffer cw) (0 * MaxMetricsPerRequest) (cw\<lparr>metricBuffer := []\<rparr>) = (None, cw')"
    by (simp only: flushMetrics_sendBatches)
  from sendBatches_run[OF this] show ?thesis
    by (simp add: delivered_def request_def)
qed

lemma flushMetrics_failed:
  assumes "flushMetrics svc cw = (Some e, cw')"
  shows "\<exists>k<batchCount (metricBuffer cw).
           cw' = cw\<lparr>calls := calls cw @ delivered cw (metricBuffer cw) [0..<k]
                              @ [(request cw (batch (metricBuffer cw) k), Some e)],
                     metricBuffer := batch (metricBuffer cw) k\<rparr>"
proof -
  from assms have "sendBatches svc (metricBuffer cw) (0 * MaxMetricsPerRequest) (cw\<lparr>metricBuffer := []\<rparr>) = (Some e, cw')"
    by (simp only: flushMetrics_sendBatches)
  from sendBatches_run[OF this] show ?thesis
    by (auto simp add: delivered_def request_def)
qed

lemma batch_take_drop:
  "batch ms k = take 20 (drop (20 * k) ms)"
  by (simp add: batch_def slice_def MaxMetricsPerRequest_def min_def mult.commute)

lemma batchCount_ceil: "batchCount ms = (length ms + 19) div 20"
  by (simp add: batchCount_def MaxMetricsPerRequest_def)

lemma concat_batches_upto:
  "concat (map (batch ms) [0..<k]) = take (20 * k) ms"
proof (induction k)
  case 0
  show ?case by simp
next
  case (Suc k)
  have "take (20 * Suc k) ms = take (20 * k) ms @ take 20 (drop (20 * k) ms)"
    by (simp add: take_add[symmetric] add.commute)
  with Suc show ?case by (simp add: batch_take_drop)
qed

lemma concat_batches: "concat (map (batch ms) [0..<batchCount ms]) = ms"
proof -
  have "length ms \<le> 20 * batchCount ms"
    unfolding batchCount_ceil by arith
  then show ?thesis by (simp add: concat_batches_upto)
qed

lemma length_batch: "length (batch ms k) \<le> 20"
  by (simp add: batch_take_drop)

lemma batch_nonempty: "k < batchCount ms \<Longrightarrow> batch ms k \<noteq> []"
  using batch_index[of k ms] by (simp add: batch_take_drop MaxMetricsPerRequest_def mult.commute)

lemma sentBatches_delivered:
  "sentBatches cw (cw\<lparr>calls := calls cw @ delivered cw ms ks, metricBuffer := b\<rparr>) = map (batch ms) ks"
  by (simp add: sentBatches_def delivered_def request_def comp_def)

lemma sentBatches_failed:
  "sentBatches cw (cw\<lparr>calls := calls cw @ delivered cw ms ks @ [(request cw c, e)], metricBuffer := b\<rparr>)
     = map (batch ms) ks @ [c]"
  by (simp add: sentBatches_def delivered_def request_def comp_def)

lemma flushMetrics_sent_prefix:
  "prefix (sentBatches cw (snd (flushMetrics svc cw)))
     (map (batch (metricBuffer cw)) [0..<batchCount (metricBuffer cw)])"
proof -
  let ?ms = "metricBuffer cw"
  obtain err cw' where r: "flushMetrics svc cw = (err, cw')"
    by (cases "flushMetrics svc cw")
  show ?thesis
  proof (cases err)
    case None
    with r flushMetrics_ok[of svc cw cw'] show ?thesis
      by (simp add: sentBatches_delivered)
  next
    case (Some e)
    with r flushMetrics_failed[of svc cw e cw'] obtain k where k: "k < batchCount ?ms"
      and cw': "cw' = cw\<lparr>calls := calls cw @ delivered cw ?ms [0..<k]
                              @ [(request cw (batch ?ms k), Some e)],
                     metricBuffer := batch ?ms k\<rparr>"
      by auto
    have "[0..<batchCount ?ms] = ([0..<k] @ [k]) @ [Suc k..<batchCount ?ms]"
      using k upt_add_eq_append[of 0 k "batchCount ?ms - k"] by (simp add: upt_conv_Cons)
    then have "map (batch ?ms) [0..<batchCount ?ms]
        = (map (batch ?ms) [0..<k] @ [batch ?ms k]) @ map (batch ?ms) [Suc k..<batchCount ?ms]"
      by (simp only: map_append list.map)
    then show ?thesis
      unfolding r snd_conv cw' sentBatches_failed by (simp only: prefixI)
  qed
qed

lemma batchCount_ceiling: "int (batchCount ms) = \<lceil>real (length ms) / 20\<rceil>"
proof -
  have "\<lceil>real (length ms) / 20\<rceil> = \<lceil>real_of_int (int (length ms)) / real_of_int 20\<rceil>"
    by simp
  also have "\<dots> = - (- int (length ms) div 20)"
    by (simp only: ceiling_divide_eq_div)
  also have "\<dots> = int ((length ms + 19) div 20)"
    by (simp add: zdiv_int)
  finally show ?thesis by (simp add: batchCount_ceil)
qed


subsection \<open>The pass as a function of the service's answers\<close>

lemma answer_frame:
  "answer svc (cw\<lparr>metricBuffer := b\<rparr>) ms k = answer svc cw ms k"
  "answer svc (cw\<lparr>stopCh := x, bufferTicker := y\<rparr>) ms k = answer svc cw ms k"
  by (simp_all add: answer_def delivered_def request_def)

lemma delivered_frame:
  "delivered (cw\<lparr>metricBuffer := b\<rparr>) ms ks = delivered cw ms ks"
  "delivered (cw\<lparr>stopCh := x, bufferTicker := y\<rparr>) ms ks = delivered cw ms ks"
  "request (cw\<lparr>metricBuffer := b\<rparr>) c = request cw c"
  "request (cw\<lparr>stopCh := x, bufferTicker := y\<rparr>) c = request cw c"
  by (simp_all add: delivered_def request_def)

lemma sendBatches_accepted_prefix:
  "k \<le> batchCount ms \<Longrightarrow> (\<forall>j<k. answer svc cw ms j = None) \<Longrightarrow>
   sendBatches svc ms 0 cw
     = sendBatches svc ms (k * MaxMetricsPerRequest)
         (cw\<lparr>calls := calls cw @ delivered cw ms [0..<k]\<rparr>)"
proof (induction k)
  case 0
  show ?case by (simp add: delivered_def)
next
  case (Suc k)
  let ?cwk = "cw\<lparr>calls := calls cw @ delivered cw ms [0..<k]\<rparr>"
  from Suc.prems have lt: "k < batchCount ms" and acc: "\<forall>j<k. answer svc cw ms j = None"
    and ak: "answer svc cw ms k = None"
    by simp_all
  from lt acc have "sendBatches svc ms 0 cw = sendBatches svc ms (k * MaxMetricsPerRequest) ?cwk"
    by (intro Suc.IH) simp_all
  moreover have "svc (calls ?cwk) (request ?cwk (batch ms k)) = None"
    using ak by (simp add: answer_def request_def)
  from sendBatches_next[of k ms svc ?cwk, OF lt this]
  have "sendBatches svc ms (k * MaxMetricsPerRequest) ?cwk
      = sendBatches svc ms (Suc k * MaxMetricsPerRequest)
          (cw\<lparr>calls := calls cw @ delivered cw ms [0..<Suc k]\<rparr>)"
    by (simp add: delivered_def request_def)
  ultimately show ?case by simp
qed

lemma sendBatches_all_accepted:
  assumes "\<forall>j<batchCount ms. answer svc cw ms j = None"
  shows "sendBatches svc ms 0 cw
           = (None, cw\<lparr>calls := calls cw @ delivered cw ms [0..<batchCount ms]\<rparr>)"
proof -
  have "sendBatches svc ms 0 cw
     = sendBatches svc ms (batchCount ms * MaxMetricsPerRequest)
         (cw\<lparr>calls := calls cw @ delivered cw ms [0..<batchCount ms]\<rparr>)"
    using assms by (intro sendBatches_accepted_prefix) simp_all
  also have "\<dots> = (None, cw\<lparr>calls := calls cw @ delivered cw ms [0..<batchCount ms]\<rparr>)"
    by (rule sendBatches_stop) simp
  finally show ?thesis .
qed

lemma sendBatches_first_rejected:
  assumes "k < batchCount ms" and "\<forall>j<k. answer svc cw ms j = None"
    and "answer svc cw ms k = Some e"
  shows "sendBatches svc ms 0 cw
           = (Some e, cw\<lparr>calls := calls cw @ delivered cw ms [0..<k]
                                   @ [(request cw (batch ms k), Some e)],
                          metricBuffer := metricBuffer cw @ batch ms k\<rparr>)"
proof -
  let ?cwk = "cw\<lparr>calls := calls cw @ delivered cw ms [0..<k]\<rparr>"
  have "sendBatches svc ms 0 cw = sendBatches svc ms (k * MaxMetricsPerRequest) ?cwk"
    using assms(1,2) by (intro sendBatches_accepted_prefix) simp_all
  moreover have "svc (calls ?cwk) (request ?cwk (batch ms k)) = Some e"
    using assms(3) by (simp add: answer_def request_def)
  from sendBatches_fail[of k ms svc ?cwk e, OF assms(1) this]
  have "sendBatches svc ms (k * MaxMetricsPerRequest) ?cwk
      = (Some e, cw\<lparr>calls := calls cw @ delivered cw ms [0..<k]
                                   @ [(request cw (batch ms k), Some e)],
                          metricBuffer := metricBuffer cw @ batch ms k\<rparr>)"
    by (simp add: request_def)
  ultimately show ?thesis by simp
qed

lemma flushMetrics_all_accepted:
  assumes "\<forall>j<batchCount (metricBuffer cw). answer svc cw (metricBuffer cw) j = None"
  shows "flushMetrics svc cw
           = (None, cw\<lparr>calls := calls cw
                           @ delivered cw (metricBuffer cw) [0..<batchCount (metricBuffer cw)],
                        metricBuffer := []\<rparr>)"
proof -
  let ?cw0 = "cw\<lparr>metricBuffer := []\<rparr>"
  from assms have "\<forall>j<batchCount (metricBuffer cw). answer svc ?cw0 (metricBuffer cw) j = None"
    by (simp add: answer_frame)
  from sendBatches_all_accepted[OF this] flushMetrics_sendBatches[of svc cw]
  show ?thesis by (simp add: delivered_frame)
qed

lemma flushMetrics_first_rejected:
  assumes "k < batchCount (metricBuffer cw)"
    and "\<forall>j<k. answer svc cw (metricBuffer cw) j = None"
    and "answer svc cw (metricBuffer cw) k = Some e"
  shows "flushMetrics svc cw
           = (Some e, cw\<lparr>calls := calls cw @ delivered cw (metricBuffer cw) [0..<k]
                                   @ [(request cw (batch (metricBuffer cw) k), Some e)],
                          metricBuffer := batch (metricBuffer cw) k\<rparr>)"
proof -
  let ?cw0 = "cw\<lparr>metricBuffer := []\<rparr>"
  from assms(2,3) have "\<forall>j<k. answer svc ?cw0 (metricBuffer cw) j = None"
    and "answer svc ?cw0 (metricBuffer cw) k = Some e"
    by (simp_all add: answer_frame)
  from sendBatches_first_rejected[OF assms(1) this] flushMetrics_sendBatches[of svc cw]
  show ?thesis by (simp add: delivered_frame)
qed

subsection \<open>A pass whose first request is rejected\<close>

text \<open>
  21 buffered points make two batches. The service rejects the first request: the pass
  returns that error after one request, with the first 20 points back in the buffer.
\<close>

lemma example_batchCount: "batchCount (map examplePoint [0..<21]) = 2"
  by (simp add: batchCount_ceil)

lemma example_batch0: "batch (map examplePoint [0..<21]) 0 = map examplePoint [0..<20]"
  by (simp add: batch_take_drop take_map)

lemma example_sendBatches:
  "sendBatches rejectFirst (map examplePoint [0..<21]) 0 (exampleCW [])
     = (Some ''service unavailable'',
        (exampleCW (map examplePoint [0..<20]))
          \<lparr>calls := [(\<lparr>InputNamespace = ''GenKit/AWS'', MetricData = map examplePoint [0..<20]\<rparr>,
                      Some ''service unavailable'')]\<rparr>)"
proof -
  have lt: "0 < batchCount (map examplePoint [0..<21])"
    by (simp only: example_batchCount)
  have rej: "rejectFirst (calls (exampleCW []))
       (request (exampleCW []) (batch (map examplePoint [0..<21]) 0)) = Some ''service unavailable''"
    by (simp add: rejectFirst_def exampleCW_def)
  from sendBatches_fail[of 0 "map examplePoint [0..<21]" rejectFirst "exampleCW []", OF lt rej]
  show ?thesis
    by (simp add: example_batch0 request_def exampleCW_def)
qed

lemma example_flushMetrics:
  "flushMetrics rejectFirst (exampleCW (map examplePoint [0..<21]))
     = (Some ''service unavailable'',
        (exampleCW (map examplePoint [0..<20]))
          \<lparr>calls := [(\<lparr>InputNamespace = ''GenKit/AWS'', MetricData = map examplePoint [0..<20]\<rparr>,
                      Some ''service unavailable'')]\<rparr>)"
proof -
  have "(exampleCW (map examplePoint [0..<21]))\<lparr>metricBuffer := []\<rparr> = exampleCW []"
    by (simp add: exampleCW_def)
  then show ?thesis
    using example_sendBatches
    by (simp add: flushMetrics_sendBatches) (simp add: exampleCW_def)
qed

lemma example_answer0:
  "answer rejectFirst (exampleCW bs) (map examplePoint [0..<21]) 0 = Some ''service unavailable''"
  by (simp add: answer_def rejectFirst_def exampleCW_def delivered_def)

lemma example_shorter: "map examplePoint [0..<20] \<noteq> map examplePoint [0..<21]"
proof
  assume "map examplePoint [0..<20] = map examplePoint [0..<21]"
  then have "length (map examplePoint [0..<20]) = length (map examplePoint [0..<21])"
    by (rule arg_cong)
  then show False by simp
qed

text \<open>
  C5, as stated, fails: of 21 points handed to a flush whose first request is rejected,
  one batch of 20 points is produced where \<open>ceil(21/20)\<close> is 2, and the batches produced
  do not make up the input.
\<close>

theorem flushMetrics_all_batches_counterexample:
  "length (metricBuffer (exampleCW (map examplePoint [0..<21]))) = 21
   \<and> \<lceil>(21::real) / 20\<rceil> = 2
   \<and> length (sentBatches (exampleCW (map examplePoint [0..<21]))
        (snd (flushMetrics rejectFirst (exampleCW (map examplePoint [0..<21]))))) = 1
   \<and> sentBatches (exampleCW (map examplePoint [0..<21]))
        (snd (flushMetrics rejectFirst (exampleCW (map examplePoint [0..<21]))))
      = [map examplePoint [0..<20]]
   \<and> concat (sentBatches (exampleCW (map examplePoint [0..<21]))
        (snd (flushMetrics rejectFirst (exampleCW (map examplePoint [0..<21])))))
      \<noteq> metricBuffer (exampleCW (map examplePoint [0..<21]))"
  unfolding example_flushMetrics
  by (simp add: sentBatches_def exampleCW_def example_shorter)

text \<open>
  C5, amended. The chunks of \<open>N\<close> points are the \<open>ceil(N/20)\<close> consecutive slices
  \<open>ms[20k : min(20k+20, N)]\<close>: each has at most 20 points, in the order of the input, and
  concatenated they are the input. A flush pass requests these chunks in this order: all
  of them when the service accepts each one, so that a pass that returns nil has requested
  them all, and otherwise the chunks up to and including the first one the service
  rejects.
\<close>

theorem flushMetrics_batches:
  "((\<forall>j<batchCount (metricBuffer cw). answer svc cw (metricBuffer cw) j = None) \<longrightarrow>
      fst (flushMetrics svc cw) = None
      \<and> sentBatches cw (snd (flushMetrics svc cw))
          = map (batch (metricBuffer cw)) [0..<batchCount (metricBuffer cw)])
   \<and> (k < batchCount (metricBuffer cw)
        \<and> (\<forall>j<k. answer svc cw (metricBuffer cw) j = None)
        \<and> answer svc cw (metricBuffer cw) k = Some e \<longrightarrow>
      fst (flushMetrics svc cw) = Some e
      \<and> sentBatches cw (snd (flushMetrics svc cw)) = map (batch (metricBuffer cw)) [0..<Suc k])
   \<and> (fst (flushMetrics svc cw) = None \<longrightarrow>
        sentBatches cw (snd (flushMetrics svc cw))
          = map (batch (metricBuffer cw)) [0..<batchCount (metricBuffer cw)])
   \<and> MaxMetricsPerRequest = 20
   \<and> length (map (batch ms) [0..<batchCount ms]) = (length ms + 19) div 20
   \<and> int (length (map (batch ms) [0..<batchCount ms])) = \<lceil>real (length ms) / 20\<rceil>
   \<and> list_all (\<lambda>b. length b \<le> 20) (map (batch ms) [0..<batchCount ms])
   \<and> concat (map (batch ms) [0..<batchCount ms]) = ms
   \<and> batch ms i = take 20 (drop (20 * i) ms)"
proof -
  let ?ms = "metricBuffer cw"
  have a: "fst (flushMetrics svc cw) = None
      \<and> sentBatches cw (snd (flushMetrics svc cw)) = map (batch ?ms) [0..<batchCount ?ms]"
    if "\<forall>j<batchCount ?ms. answer svc cw ?ms j = None"
    using flushMetrics_all_accepted[OF that] by (simp add: sentBatches_delivered)
  have b: "fst (flushMetrics svc cw) = Some e
      \<and> sentBatches cw (snd (flushMetrics svc cw)) = map (batch ?ms) [0..<Suc k]"
    if "k < batchCount ?ms" "\<forall>j<k. answer svc cw ?ms j = None" "answer svc cw ?ms k = Some e"
    using flushMetrics_first_rejected[OF that] by (simp add: sentBatches_failed)
  have c: "sentBatches cw (snd (flushMetrics svc cw)) = map (batch ?ms) [0..<batchCount ?ms]"
    if "fst (flushMetrics svc cw) = None"
  proof -
    from that have "flushMetrics svc cw = (None, snd (flushMetrics svc cw))"
      by (metis prod.collapse)
    from flushMetrics_ok[OF this] show ?thesis
      by (metis sentBatches_delivered)
  qed
  have d: "list_all (\<lambda>b. length b \<le> 20) (map (batch ms) [0..<batchCount ms])"
    by (simp add: list_all_iff length_batch)
  have e: "int (length (map (batch ms) [0..<batchCount ms])) = \<lceil>real (length ms) / 20\<rceil>"
    using batchCount_ceiling[of ms] by simp
  have f: "length (map (batch ms) [0..<batchCount ms]) = (length ms + 19) div 20"
    by (simp add: batchCount_ceil)
  have g: "MaxMetricsPerRequest = 20" by (simp add: MaxMetricsPerRequest_def)
  from a b c d e f g concat_batches[of ms] batch_take_drop[of ms i]
  show ?thesis by blast
qed

text \<open>
  The amended C5 at 21 points, with the service that rejects the first request and with a
  service that accepts every request.
\<close>

theorem flushMetrics_batches_witness:
  "(0::nat) < batchCount (metricBuffer (exampleCW (map examplePoint [0..<21])))
   \<and> answer rejectFirst (exampleCW (map examplePoint [0..<21]))
         (metricBuffer (exampleCW (map examplePoint [0..<21]))) 0 = Some ''service unavailable''
   \<and> fst (flushMetrics rejectFirst (exampleCW (map examplePoint [0..<21])))
       = Some ''service unavailable''
   \<and> sentBatches (exampleCW (map examplePoint [0..<21]))
        (snd (flushMetrics rejectFirst (exampleCW (map examplePoint [0..<21]))))
      = map (batch (metricBuffer (exampleCW (map examplePoint [0..<21])))) [0..<Suc 0]
   \<and> fst (flushMetrics (\<lambda>history inp. None) (exampleCW (map examplePoint [0..<21]))) = None
   \<and> sentBatches (exampleCW (map examplePoint [0..<21]))
        (snd (flushMetrics (\<lambda>history inp. None) (exampleCW (map examplePoint [0..<21]))))
      = map (batch (metricBuffer (exampleCW (map examplePoint [0..<21]))))
          [0..<batchCount (metricBuffer (exampleCW (map examplePoint [0..<21])))]"
proof -
  let ?cw = "exampleCW (map examplePoint [0..<21])"
  have buf: "metricBuffer ?cw = map examplePoint [0..<21]" by (simp add: exampleCW_def)
  have lt: "(0::nat) < batchCount (metricBuffer ?cw)"
    unfolding buf example_batchCount by simp
  have rej: "answer rejectFirst ?cw (metricBuffer ?cw) 0 = Some ''service unavailable''"
    unfolding buf by (rule example_answer0)
  have none: "\<forall>j<0. answer rejectFirst ?cw (metricBuffer ?cw) j = None" by simp
  have acc: "\<forall>j<batchCount (metricBuffer ?cw).
      answer (\<lambda>history inp. None) ?cw (metricBuffer ?cw) j = None"
    by (simp add: answer_def)
  from flushMetrics_batches[of ?cw rejectFirst 0 "''service unavailable''"] lt rej none
  have "fst (flushMetrics rejectFirst ?cw) = Some ''service unavailable''
      \<and> sentBatches ?cw (snd (flushMetrics rejectFirst ?cw))
          = map (batch (metricBuffer ?cw)) [0..<Suc 0]"
    by blast
  moreover from flushMetrics_batches[of ?cw "\<lambda>history inp. None"] acc
  have "fst (flushMetrics (\<lambda>history inp. None) ?cw) = None
      \<and> sentBatches ?cw (snd (flushMetrics (\<lambda>history inp. None) ?cw))
          = map (batch (metricBuffer ?cw)) [0..<batchCount (metricBuffer ?cw)]"
    by blast
  ultimately show ?thesis using lt rej by blast
qed

text \<open>
  C1, as stated, fails: with two batches and a service that rejects only its first
  request, the pass makes that one request and returns; the second batch is not attempted.
\<close>

theorem flushMetrics_continues_counterexample:
  "fst (flushMetrics rejectFirst (exampleCW (map examplePoint [0..<21]))) = Some ''service unavailable''
   \<and> batchCount (map examplePoint [0..<21]) = 2
   \<and> batch (map examplePoint [0..<21]) 1 = [examplePoint 20]
   \<and> sentBatches (exampleCW (map examplePoint [0..<21]))
        (snd (flushMetrics rejectFirst (exampleCW (map examplePoint [0..<21]))))
      = [map examplePoint [0..<20]]"
  unfolding example_flushMetrics
  by (simp add: example_batchCount batch_take_drop sentBatches_def exampleCW_def drop_map)

text \<open>
  C1, amended. A flush pass runs the loop over the batches of the points it took, on the
  emptied buffer. The loop sends the batches in order and stops at the first request the
  service rejects: the batches before it were sent and accepted, the points of the
  rejected batch are appended to the live buffer, in their order and directly behind what
  the buffer held, no point of an accepted batch is appended, no later batch is requested,
  and the error of the rejected request is returned. When the service accepts every batch
  the pass sends them all, appends nothing and returns nil. Whether points of the batches
  behind the rejected one follow in the buffer is not part of this statement.
\<close>

theorem sendBatches_stops_at_failure:
  "(k < batchCount ms \<and> (\<forall>j<k. answer svc cw ms j = None) \<and> answer svc cw ms k = Some e \<longrightarrow>
      fst (sendBatches svc ms 0 cw) = Some e
      \<and> calls (snd (sendBatches svc ms 0 cw))
          = calls cw @ delivered cw ms [0..<k] @ [(request cw (batch ms k), Some e)]
      \<and> (\<exists>later. metricBuffer (snd (sendBatches svc ms 0 cw))
                      = metricBuffer cw @ batch ms k @ later
                  \<and> subseq later (drop (20 * Suc k) ms))
      \<and> batch ms k = take 20 (drop (20 * k) ms))
   \<and> ((\<forall>j<batchCount ms. answer svc cw ms j = None) \<longrightarrow>
      fst (sendBatches svc ms 0 cw) = None
      \<and> calls (snd (sendBatches svc ms 0 cw)) = calls cw @ delivered cw ms [0..<batchCount ms]
      \<and> metricBuffer (snd (sendBatches svc ms 0 cw)) = metricBuffer cw)
   \<and> flushMetrics svc cw0 = sendBatches svc (metricBuffer cw0) 0 (cw0\<lparr>metricBuffer := []\<rparr>)"
proof (intro conjI impI)
  assume h: "k < batchCount ms \<and> (\<forall>j<k. answer svc cw ms j = None) \<and> answer svc cw ms k = Some e"
  then have r: "sendBatches svc ms 0 cw
           = (Some e, cw\<lparr>calls := calls cw @ delivered cw ms [0..<k]
                                   @ [(request cw (batch ms k), Some e)],
                          metricBuffer := metricBuffer cw @ batch ms k\<rparr>)"
    by (intro sendBatches_first_rejected) simp_all
  show "fst (sendBatches svc ms 0 cw) = Some e" by (simp add: r)
  show "calls (snd (sendBatches svc ms 0 cw))
          = calls cw @ delivered cw ms [0..<k] @ [(request cw (batch ms k), Some e)]"
    by (simp add: r)
  have "metricBuffer (snd (sendBatches svc ms 0 cw)) = metricBuffer cw @ batch ms k @ []
      \<and> subseq [] (drop (20 * Suc k) ms)"
    by (simp add: r)
  then show "\<exists>later. metricBuffer (snd (sendBatches svc ms 0 cw))
                      = metricBuffer cw @ batch ms k @ later
                  \<and> subseq later (drop (20 * Suc k) ms)"
    by (rule exI)
  show "batch ms k = take 20 (drop (20 * k) ms)" by (rule batch_take_drop)
next
  assume "\<forall>j<batchCount ms. answer svc cw ms j = None"
  from sendBatches_all_accepted[OF this]
  have r: "sendBatches svc ms 0 cw
           = (None, cw\<lparr>calls := calls cw @ delivered cw ms [0..<batchCount ms]\<rparr>)" .
  show "fst (sendBatches svc ms 0 cw) = None" by (simp add: r)
  show "calls (snd (sendBatches svc ms 0 cw)) = calls cw @ delivered cw ms [0..<batchCount ms]"
    by (simp add: r)
  show "metricBuffer (snd (sendBatches svc ms 0 cw)) = metricBuffer cw" by (simp add: r)
next
  show "flushMetrics svc cw0 = sendBatches svc (metricBuffer cw0) 0 (cw0\<lparr>metricBuffer := []\<rparr>)"
    using flushMetrics_sendBatches[of svc cw0] by simp
qed

text \<open>
  The amended C1 at 21 points, a live buffer holding one other point, and the service that
  rejects the first request.
\<close>

theorem sendBatches_stops_at_failure_witness:
  "(0::nat) < batchCount (map examplePoint [0..<21])
   \<and> answer rejectFirst (exampleCW [examplePoint 99]) (map examplePoint [0..<21]) 0
       = Some ''service unavailable''
   \<and> fst (sendBatches rejectFirst (map examplePoint [0..<21]) 0 (exampleCW [examplePoint 99]))
       = Some ''service unavailable''
   \<and> calls (snd (sendBatches rejectFirst (map examplePoint [0..<21]) 0
                   (exampleCW [examplePoint 99])))
       = [(request (exampleCW [examplePoint 99]) (map examplePoint [0..<20]),
           Some ''service unavailable'')]
   \<and> (\<exists>later. metricBuffer (snd (sendBatches rejectFirst (map examplePoint [0..<21]) 0
                   (exampleCW [examplePoint 99])))
                 = [examplePoint 99] @ map examplePoint [0..<20] @ later
               \<and> subseq later [examplePoint 20])"
proof -
  let ?ms = "map examplePoint [0..<21]" and ?cw = "exampleCW [examplePoint 99]"
  have lt: "(0::nat) < batchCount ?ms" unfolding example_batchCount by simp
  have rej: "answer rejectFirst ?cw ?ms 0 = Some ''service unavailable''"
    by (rule example_answer0)
  have none: "\<forall>j<0. answer rejectFirst ?cw ?ms j = None" by simp
  have later: "drop (20 * Suc 0) ?ms = [examplePoint 20]"
    by (simp add: drop_map)
  from sendBatches_stops_at_failure[of 0 ?ms rejectFirst ?cw "''service unavailable''"]
    lt rej none
  have "fst (sendBatches rejectFirst ?ms 0 ?cw) = Some ''service unavailable''
      \<and> calls (snd (sendBatches rejectFirst ?ms 0 ?cw))
          = calls ?cw @ delivered ?cw ?ms [0..<0]
              @ [(request ?cw (batch ?ms 0), Some ''service unavailable'')]
      \<and> (\<exists>later. metricBuffer (snd (sendBatches rejectFirst ?ms 0 ?cw))
                      = metricBuffer ?cw @ batch ?ms 0 @ later
                  \<and> subseq later (drop (20 * Suc 0) ?ms))"
    by blast
  then have "fst (sendBatches rejectFirst ?ms 0 ?cw) = Some ''service unavailable''
      \<and> calls (snd (sendBatches rejectFirst ?ms 0 ?cw))
          = [(request ?cw (map examplePoint [0..<20]), Some ''service unavailable'')]
      \<and> (\<exists>later. metricBuffer (snd (sendBatches rejectFirst ?ms 0 ?cw))
                      = [examplePoint 99] @ map examplePoint [0..<20] @ later
                  \<and> subseq later [examplePoint 20])"
    unfolding later example_batch0 by (simp add: delivered_def exampleCW_def)
  with lt rej show ?thesis by blast
qed

text \<open>
  C2 does not hold of \<open>flushMetrics\<close>: in the pass above the 21st point was taken from the
  buffer, it is in no request the service accepted, and it is not in the buffer
  afterwards.
\<close>

theorem flushMetrics_drops_unsent_batch:
  "examplePoint 20 \<in> set (metricBuffer (exampleCW (map examplePoint [0..<21])))
   \<and> fst (flushMetrics rejectFirst (exampleCW (map examplePoint [0..<21]))) = Some ''service unavailable''
   \<and> examplePoint 20 \<notin> set (metricBuffer (snd (flushMetrics rejectFirst (exampleCW (map examplePoint [0..<21])))))
   \<and> examplePoint 20 \<notin> set (concat (map (\<lambda>c. MetricData (fst c))
         (filter (\<lambda>c. snd c = None)
            (calls (snd (flushMetrics rejectFirst (exampleCW (map examplePoint [0..<21]))))))))"
  unfolding example_flushMetrics
  by (auto simp: exampleCW_def examplePoint_def)


section \<open>Close\<close>

lemma flushMetrics_empty:
  "metricBuffer cw = [] \<Longrightarrow> flushMetrics svc cw = (None, cw)"
  by (simp add: flushMetrics_def swapBuffer_def)

lemma flushMetrics_last_answer:
  assumes "metricBuffer cw \<noteq> []"
  shows "calls (snd (flushMetrics svc cw)) \<noteq> []
     \<and> snd (last (calls (snd (flushMetrics svc cw)))) = fst (flushMetrics svc cw)
     \<and> sentBatches cw (snd (flushMetrics svc cw)) \<noteq> []"
proof -
  let ?ms = "metricBuffer cw"
  from assms have pos: "0 < batchCount ?ms"
    by (simp add: batchCount_ceil) (cases ?ms, simp_all)
  obtain err cw' where r: "flushMetrics svc cw = (err, cw')"
    by (cases "flushMetrics svc cw")
  show ?thesis
  proof (cases err)
    case None
    have "[0..<batchCount ?ms] = [0..<batchCount ?ms - 1] @ [batchCount ?ms - 1]"
      using pos by (metis Suc_pred' upt_Suc_append zero_le)
    then have "delivered cw ?ms [0..<batchCount ?ms]
        = delivered cw ?ms [0..<batchCount ?ms - 1]
            @ [(request cw (batch ?ms (batchCount ?ms - 1)), None)]"
      by (simp add: delivered_def)
    with None r flushMetrics_ok[of svc cw cw'] show ?thesis
      by (simp add: sentBatches_def)
  next
    case (Some e)
    with r flushMetrics_failed[of svc cw e cw'] show ?thesis
      by (auto simp: sentBatches_def)
  qed
qed

text \<open>
  C7. \<open>Close\<close> on an instance that was not closed before closes the channel, stops the
  ticker and runs \<open>flushMetrics\<close> once, returning its result. On an empty buffer this
  makes no request and returns nil. Otherwise the requests follow the batches of the
  buffer from the first one, each at most once, and the error returned is the answer to
  the last request made. When the service accepts every batch, all batches are requested,
  the buffer is empty afterwards and nil is returned; a nil result always means that the
  requests made carry all the points the buffer held. When the service rejects a batch,
  the requests stop with that batch, its error is returned and its points stand at the
  head of the buffer again.
\<close>

theorem Close_final_flush:
  assumes "\<not> stopCh cw"
  shows "(metricBuffer cw = [] \<longrightarrow>
            Close svc cw = Return (None, cw\<lparr>stopCh := True, bufferTicker := False\<rparr>)
            \<and> sentBatches cw (cw\<lparr>stopCh := True, bufferTicker := False\<rparr>) = [])
       \<and> (\<exists>err cw'.
             Close svc cw = Return (err, cw')
             \<and> flushMetrics svc (cw\<lparr>stopCh := True, bufferTicker := False\<rparr>) = (err, cw')
             \<and> stopCh cw' \<and> \<not> bufferTicker cw'
             \<and> prefix (sentBatches cw cw')
                  (map (batch (metricBuffer cw)) [0..<batchCount (metricBuffer cw)])
             \<and> (err = None \<longrightarrow>
                  metricBuffer cw' = []
                  \<and> calls cw' = calls cw
                       @ delivered cw (metricBuffer cw) [0..<batchCount (metricBuffer cw)]
                  \<and> concat (sentBatches cw cw') = metricBuffer cw)
             \<and> (metricBuffer cw \<noteq> [] \<longrightarrow>
                  sentBatches cw cw' \<noteq> [] \<and> err = snd (last (calls cw'))))
       \<and> ((\<forall>j<batchCount (metricBuffer cw). answer svc cw (metricBuffer cw) j = None) \<longrightarrow>
            Close svc cw
              = Return (None,
                  cw\<lparr>stopCh := True, bufferTicker := False,
                     calls := calls cw
                       @ delivered cw (metricBuffer cw) [0..<batchCount (metricBuffer cw)],
                     metricBuffer := []\<rparr>))
       \<and> (k < batchCount (metricBuffer cw)
            \<and> (\<forall>j<k. answer svc cw (metricBuffer cw) j = None)
            \<and> answer svc cw (metricBuffer cw) k = Some e \<longrightarrow>
            (\<exists>cw'. Close svc cw = Return (Some e, cw')
               \<and> stopCh cw' \<and> \<not> bufferTicker cw'
               \<and> calls cw' = calls cw @ delivered cw (metricBuffer cw) [0..<k]
                                @ [(request cw (batch (metricBuffer cw) k), Some e)]
               \<and> (\<exists>later. metricBuffer cw' = batch (metricBuffer cw) k @ later
                           \<and> subseq later (drop (20 * Suc k) (metricBuffer cw)))))"
proof -
  let ?cw0 = "cw\<lparr>stopCh := True, bufferTicker := False\<rparr>"
  let ?ms = "metricBuffer cw"
  have ms0: "metricBuffer ?cw0 = ?ms" by simp
  have same: "sentBatches cw x = sentBatches ?cw0 x" for x
    by (simp add: sentBatches_def)
  have close: "Close svc cw = Return (flushMetrics svc ?cw0)"
    using assms by (simp add: Close_def)
  obtain err cw' where r: "flushMetrics svc ?cw0 = (err, cw')"
    by (cases "flushMetrics svc ?cw0")
  have stopped: "stopCh cw' \<and> \<not> bufferTicker cw'"
  proof (cases err)
    case None
    with r flushMetrics_ok[of svc ?cw0 cw'] show ?thesis by simp
  next
    case (Some e')
    with r flushMetrics_failed[of svc ?cw0 e' cw'] show ?thesis by auto
  qed
  have pre: "prefix (sentBatches cw cw') (map (batch ?ms) [0..<batchCount ?ms])"
    using flushMetrics_sent_prefix[of ?cw0 svc] by (simp add: r same)
  have nil: "metricBuffer cw' = []
        \<and> calls cw' = calls cw @ delivered cw ?ms [0..<batchCount ?ms]
        \<and> concat (sentBatches cw cw') = ?ms" if "err = None"
  proof -
    from that r have "flushMetrics svc ?cw0 = (None, cw')" by simp
    from flushMetrics_ok[OF this]
    have cw': "cw' = ?cw0\<lparr>calls := calls ?cw0 @ delivered ?cw0 ?ms [0..<batchCount ?ms],
                         metricBuffer := []\<rparr>"
      by simp
    have "sentBatches cw cw' = map (batch ?ms) [0..<batchCount ?ms]"
      unfolding same by (subst cw') (rule sentBatches_delivered)
    with cw' show ?thesis
      by (simp add: concat_batches delivered_frame)
  qed
  have last: "sentBatches cw cw' \<noteq> [] \<and> err = snd (last (calls cw'))" if "?ms \<noteq> []"
  proof -
    from that have "metricBuffer ?cw0 \<noteq> []" by simp
    from flushMetrics_last_answer[OF this, of svc] show ?thesis
      by (simp add: r same)
  qed
  have first: "metricBuffer cw = [] \<longrightarrow>
            Close svc cw = Return (None, ?cw0) \<and> sentBatches cw ?cw0 = []"
    by (simp add: close flushMetrics_empty sentBatches_def)
  have second: "\<exists>err cw'.
             Close svc cw = Return (err, cw')
             \<and> flushMetrics svc ?cw0 = (err, cw')
             \<and> stopCh cw' \<and> \<not> bufferTicker cw'
             \<and> prefix (sentBatches cw cw') (map (batch ?ms) [0..<batchCount ?ms])
             \<and> (err = None \<longrightarrow>
                  metricBuffer cw' = []
                  \<and> calls cw' = calls cw @ delivered cw ?ms [0..<batchCount ?ms]
                  \<and> concat (sentBatches cw cw') = ?ms)
             \<and> (?ms \<noteq> [] \<longrightarrow> sentBatches cw cw' \<noteq> [] \<and> err = snd (last (calls cw')))"
    using close r stopped pre nil last by (intro exI[of _ err] exI[of _ cw']) simp
  have third: "Close svc cw
              = Return (None,
                  cw\<lparr>stopCh := True, bufferTicker := False,
                     calls := calls cw @ delivered cw ?ms [0..<batchCount ?ms],
                     metricBuffer := []\<rparr>)"
    if "\<forall>j<batchCount ?ms. answer svc cw ?ms j = None"
  proof -
    from that have "\<forall>j<batchCount (metricBuffer ?cw0). answer svc ?cw0 (metricBuffer ?cw0) j = None"
      by (simp add: answer_frame)
    from flushMetrics_all_accepted[OF this] show ?thesis
      by (simp add: close delivered_frame)
  qed
  have fourth: "\<exists>cw'. Close svc cw = Return (Some e, cw')
               \<and> stopCh cw' \<and> \<not> bufferTicker cw'
               \<and> calls cw' = calls cw @ delivered cw ?ms [0..<k]
                                @ [(request cw (batch ?ms k), Some e)]
               \<and> (\<exists>later. metricBuffer cw' = batch ?ms k @ later
                           \<and> subseq later (drop (20 * Suc k) ?ms))"
    if "k < batchCount ?ms" "\<forall>j<k. answer svc cw ?ms j = None" "answer svc cw ?ms k = Some e"
  proof -
    from that have "k < batchCount (metricBuffer ?cw0)"
      and "\<forall>j<k. answer svc ?cw0 (metricBuffer ?cw0) j = None"
      and "answer svc ?cw0 (metricBuffer ?cw0) k = Some e"
      by (simp_all add: answer_frame)
    from flushMetrics_first_rejected[OF this]
    have f: "flushMetrics svc ?cw0
           = (Some e, ?cw0\<lparr>calls := calls cw @ delivered cw ?ms [0..<k]
                                   @ [(request cw (batch ?ms k), Some e)],
                          metricBuffer := batch ?ms k\<rparr>)"
      by (simp add: delivered_frame)
    have "subseq [] (drop (20 * Suc k) ?ms)" by simp
    then show ?thesis
      unfolding close f
      by (intro exI[of _ "?cw0\<lparr>calls := calls cw @ delivered cw ?ms [0..<k]
                                   @ [(request cw (batch ?ms k), Some e)],
                          metricBuffer := batch ?ms k\<rparr>"]) simp
  qed
  from first second third fourth show ?thesis by blast
qed

text \<open>
  C7 at an empty buffer and at the buffer of 21 points, with a service that rejects the
  first request and with one that accepts every request.
\<close>

theorem Close_final_flush_witness:
  "\<not> stopCh (exampleCW [])
   \<and> Close rejectFirst (exampleCW [])
       = Return (None, (exampleCW [])\<lparr>stopCh := True, bufferTicker := False\<rparr>)
   \<and> \<not> stopCh (exampleCW (map examplePoint [0..<21]))
   \<and> (0::nat) < batchCount (metricBuffer (exampleCW (map examplePoint [0..<21])))
   \<and> answer rejectFirst (exampleCW (map examplePoint [0..<21]))
         (metricBuffer (exampleCW (map examplePoint [0..<21]))) 0 = Some ''service unavailable''
   \<and> (\<exists>cw'. Close rejectFirst (exampleCW (map examplePoint [0..<21]))
               = Return (Some ''service unavailable'', cw')
         \<and> stopCh cw'
         \<and> (\<exists>later. metricBuffer cw'
                       = batch (metricBuffer (exampleCW (map examplePoint [0..<21]))) 0 @ later))
   \<and> Close (\<lambda>history inp. None) (exampleCW (map examplePoint [0..<21]))
       = Return (None,
           (exampleCW (map examplePoint [0..<21]))
             \<lparr>stopCh := True, bufferTicker := False,
              calls := calls (exampleCW (map examplePoint [0..<21]))
                 @ delivered (exampleCW (map examplePoint [0..<21]))
                     (metricBuffer (exampleCW (map examplePoint [0..<21])))
                     [0..<batchCount (metricBuffer (exampleCW (map examplePoint [0..<21])))],
              metricBuffer := []\<rparr>)"
proof -
  let ?cw = "exampleCW (map examplePoint [0..<21])"
  have a: "\<not> stopCh (exampleCW [])" and b: "metricBuffer (exampleCW []) = []"
    by (simp_all add: exampleCW_def)
  have c: "\<not> stopCh ?cw" by (simp add: exampleCW_def)
  have buf: "metricBuffer ?cw = map examplePoint [0..<21]" by (simp add: exampleCW_def)
  have lt: "(0::nat) < batchCount (metricBuffer ?cw)"
    unfolding buf example_batchCount by simp
  have rej: "answer rejectFirst ?cw (metricBuffer ?cw) 0 = Some ''service unavailable''"
    unfolding buf by (rule example_answer0)
  have none: "\<forall>j<0. answer rejectFirst ?cw (metricBuffer ?cw) j = None" by simp
  have acc: "\<forall>j<batchCount (metricBuffer ?cw).
      answer (\<lambda>history inp. None) ?cw (metricBuffer ?cw) j = None"
    by (simp add: answer_def)
  from Close_final_flush[OF a, of rejectFirst] b
  have 1: "Close rejectFirst (exampleCW [])
       = Return (None, (exampleCW [])\<lparr>stopCh := True, bufferTicker := False\<rparr>)"
    by blast
  from Close_final_flush[OF c, of rejectFirst 0 "''service unavailable''"] lt rej none
  have 2: "\<exists>cw'. Close rejectFirst ?cw = Return (Some ''service unavailable'', cw')
         \<and> stopCh cw'
         \<and> (\<exists>later. metricBuffer cw' = batch (metricBuffer ?cw) 0 @ later)"
    by blast
  from Close_final_flush[OF c, of "\<lambda>history inp. None"] acc
  have 3: "Close (\<lambda>history inp. None) ?cw
       = Return (None,
           ?cw\<lparr>stopCh := True, bufferTicker := False,
              calls := calls ?cw
                 @ delivered ?cw (metricBuffer ?cw) [0..<batchCount (metricBuffer ?cw)],
              metricBuffer := []\<rparr>)"
    by blast
  from a c lt rej 1 2 3 show ?thesis by blast
qed

section \<open>The buffer and its swap\<close>

lemma runOps_partition:
  "concat (fst (runOps ops cw)) @ metricBuffer (snd (runOps ops cw))
     = metricBuffer cw @ appended ops"
proof (induction ops arbitrary: cw)
  case Nil
  show ?case by simp
next
  case (Cons op ops)
  show ?case
  proof (cases op)
    case (Append ms)
    with Cons[of "appendBuffer ms cw"] show ?thesis
      by (simp add: appendBuffer_def)
  next
    case Swap
    with Cons[of "cw\<lparr>metricBuffer := []\<rparr>"] show ?thesis
      by (simp add: swapBuffer_def case_prod_unfold Let_def)
  qed
qed

lemma count_list_member: "x \<in> set ys \<Longrightarrow> 1 \<le> count_list ys x"
  using count_list_0_iff[of ys x] by (cases "count_list ys x") simp_all

lemma count_list_distinct: "distinct ys \<Longrightarrow> count_list ys y \<le> 1"
proof (induction ys)
  case Nil
  show ?case by simp
next
  case (Cons a ys)
  then show ?case
    using count_list_0_iff[of ys y] by auto
qed

lemma shared_point_twice:
  "i < j \<Longrightarrow> j < length xss \<Longrightarrow> x \<in> set (xss ! i) \<Longrightarrow> x \<in> set (xss ! j)
     \<Longrightarrow> 2 \<le> count_list (concat xss) x"
proof (induction xss arbitrary: i j)
  case Nil
  then show ?case by simp
next
  case (Cons xs xss)
  from Cons.prems obtain j' where j: "j = Suc j'" "j' < length xss"
    by (cases j) auto
  show ?case
  proof (cases i)
    case 0
    with Cons.prems(3) have "x \<in> set xs" by simp
    then have "1 \<le> count_list xs x" by (rule count_list_member)
    moreover from Cons.prems(4) j have "x \<in> set (xss ! j')" by simp
    with j have "x \<in> set (concat xss)"
      by (auto intro: nth_mem)
    then have "1 \<le> count_list (concat xss) x" by (rule count_list_member)
    ultimately show ?thesis by simp
  next
    case (Suc i')
    with Cons.prems j have "2 \<le> count_list (concat xss) x"
      by (intro Cons.IH[of i' j']) simp_all
    then show ?thesis by simp
  qed
qed

text \<open>
  C8, as stated, fails: the swap at the head of a flush whose request is rejected returns
  the buffered point, the retry path puts it back, and the next swap returns it again.
\<close>

theorem swapBuffer_retry_counterexample:
  "fst (swapBuffer (exampleCW [examplePoint 0])) = [examplePoint 0]
   \<and> fst (flushMetrics rejectFirst (exampleCW [examplePoint 0])) = Some ''service unavailable''
   \<and> fst (swapBuffer (snd (flushMetrics rejectFirst (exampleCW [examplePoint 0]))))
       = [examplePoint 0]"
proof -
  let ?cw = "exampleCW [examplePoint 0]"
  have buf: "metricBuffer ?cw = [examplePoint 0]" by (simp add: exampleCW_def)
  have lt: "0 < batchCount (metricBuffer ?cw)" by (simp add: buf batchCount_ceil)
  have rej: "answer rejectFirst ?cw (metricBuffer ?cw) 0 = Some ''service unavailable''"
    by (simp add: answer_def rejectFirst_def exampleCW_def delivered_def)
  have none: "\<forall>j<0. answer rejectFirst ?cw (metricBuffer ?cw) j = None" by simp
  have b0: "batch (metricBuffer ?cw) 0 = [examplePoint 0]"
    by (simp add: buf batch_take_drop)
  show ?thesis
    unfolding flushMetrics_first_rejected[OF lt none rej] b0
    by (simp add: swapBuffer_def exampleCW_def)
qed

text \<open>
  C8, amended. The swap returns exactly the points the buffer holds and leaves the buffer
  empty (length 0), so that a swap right after it takes nothing. In every run of appends
  and swaps the sequences taken by the swaps, in order and followed by the final buffer,
  are the initial buffer followed by the appended points. A point that two swaps of the
  run return was therefore in the buffer or appended at least twice, as the retry path
  appends the points of a rejected batch again; when the initial and the appended points
  are pairwise different, no two swaps return a point in common.
\<close>

theorem swapBuffer_takes_all:
  "fst (swapBuffer cw) = metricBuffer cw
   \<and> metricBuffer (snd (swapBuffer cw)) = []
   \<and> length (metricBuffer (snd (swapBuffer cw))) = 0
   \<and> fst (swapBuffer (snd (swapBuffer cw))) = []
   \<and> concat (fst (runOps ops cw)) @ metricBuffer (snd (runOps ops cw))
       = metricBuffer cw @ appended ops
   \<and> (i < j \<and> j < length (fst (runOps ops cw))
        \<and> x \<in> set (fst (runOps ops cw) ! i) \<and> x \<in> set (fst (runOps ops cw) ! j) \<longrightarrow>
        2 \<le> count_list (metricBuffer cw @ appended ops) x)
   \<and> (distinct (metricBuffer cw @ appended ops) \<and> i < j \<and> j < length (fst (runOps ops cw)) \<longrightarrow>
        set (fst (runOps ops cw) ! i) \<inter> set (fst (runOps ops cw) ! j) = {})"
proof -
  let ?swaps = "fst (runOps ops cw)" and ?all = "metricBuffer cw @ appended ops"
  have twice: "2 \<le> count_list ?all x"
    if "i < j" "j < length ?swaps" "x \<in> set (?swaps ! i)" "x \<in> set (?swaps ! j)" for i j x
  proof -
    from that have "2 \<le> count_list (concat ?swaps) x" by (rule shared_point_twice)
    also have "\<dots> \<le> count_list (concat ?swaps @ metricBuffer (snd (runOps ops cw))) x"
      by simp
    also have "\<dots> = count_list ?all x" by (simp only: runOps_partition)
    finally show ?thesis .
  qed
  have disj: "set (?swaps ! i) \<inter> set (?swaps ! j) = {}"
    if d: "distinct ?all" and "i < j" "j < length ?swaps"
  proof (rule ccontr)
    assume "set (?swaps ! i) \<inter> set (?swaps ! j) \<noteq> {}"
    then obtain y where "y \<in> set (?swaps ! i)" "y \<in> set (?swaps ! j)" by blast
    with that have "2 \<le> count_list ?all y" by (intro twice)
    moreover from d have "count_list ?all y \<le> 1" by (rule count_list_distinct)
    ultimately show False by simp
  qed
  from twice[of i j x] disj runOps_partition[of ops cw] show ?thesis
    by (simp add: swapBuffer_def)
qed

text \<open>
  The amended C8 at a run of three swaps around two appends of new points, and at a run
  that appends the swapped point again.
\<close>

theorem swapBuffer_takes_all_witness:
  "distinct (metricBuffer (exampleCW [examplePoint 0])
             @ appended [Swap, Append [examplePoint 1], Append [examplePoint 2], Swap, Swap])
   \<and> fst (runOps [Swap, Append [examplePoint 1], Append [examplePoint 2], Swap, Swap]
            (exampleCW [examplePoint 0]))
       = [[examplePoint 0], [examplePoint 1, examplePoint 2], []]
   \<and> set (fst (runOps [Swap, Append [examplePoint 1], Append [examplePoint 2], Swap, Swap]
            (exampleCW [examplePoint 0])) ! 0)
       \<inter> set (fst (runOps [Swap, Append [examplePoint 1], Append [examplePoint 2], Swap, Swap]
            (exampleCW [examplePoint 0])) ! 1) = {}
   \<and> fst (runOps [Swap, Append [examplePoint 0], Swap] (exampleCW [examplePoint 0]))
       = [[examplePoint 0], [examplePoint 0]]
   \<and> 2 \<le> count_list (metricBuffer (exampleCW [examplePoint 0])
                         @ appended [Swap, Append [examplePoint 0], Swap]) (examplePoint 0)"
proof -
  let ?ops = "[Swap, Append [examplePoint 1], Append [examplePoint 2], Swap, Swap]"
  let ?retry = "[Swap, Append [examplePoint 0], Swap]"
  let ?cw = "exampleCW [examplePoint 0]"
  have d: "distinct (metricBuffer ?cw @ appended ?ops)"
    by (simp add: exampleCW_def examplePoint_def)
  have r: "fst (runOps ?ops ?cw) = [[examplePoint 0], [examplePoint 1, examplePoint 2], []]"
    by (simp add: swapBuffer_def appendBuffer_def exampleCW_def)
  have r': "fst (runOps ?retry ?cw) = [[examplePoint 0], [examplePoint 0]]"
    by (simp add: swapBuffer_def appendBuffer_def exampleCW_def)
  have ij: "(0::nat) < 1 \<and> 1 < length (fst (runOps ?ops ?cw))"
    unfolding r by simp
  have ij': "(0::nat) < 1 \<and> 1 < length (fst (runOps ?retry ?cw))
       \<and> examplePoint 0 \<in> set (fst (runOps ?retry ?cw) ! 0)
       \<and> examplePoint 0 \<in> set (fst (runOps ?retry ?cw) ! 1)"
    unfolding r' by simp
  from swapBuffer_takes_all[of ?cw ?ops 0 1] d ij
  have 1: "set (fst (runOps ?ops ?cw) ! 0) \<inter> set (fst (runOps ?ops ?cw) ! 1) = {}"
    by blast
  from swapBuffer_takes_all[of ?cw ?retry 0 1 "examplePoint 0"] ij'
  have 2: "2 \<le> count_list (metricBuffer ?cw @ appended ?retry) (examplePoint 0)"
    by blast
  from d r r' 1 2 show ?thesis by blast
qed

section \<open>The conversion to \<open>float64\<close> on examples\<close>

lemma float64_examples:
  "float64 42 = 42"
  "float64 (- 1500) = - 1500"
  "float64 9007199254740993 = 9007199254740992"
  "float64 9007199254740995 = 9007199254740996"
  "float64 9223372036854775807 = 9223372036854775808"
  by code_simp+

section \<open>The hooks and the points they emit\<close>

text \<open>
  C10. With \<open>EnableFlowMetrics\<close> false, \<open>OnFlowStart\<close>, \<open>OnFlowEnd\<close> and \<open>OnFlowError\<close>
  return the instance as it was: the buffer, the requests made and the pending flushes are
  unchanged. With \<open>EnableModelMetrics\<close> false the same holds of \<open>OnGenerate\<close>.
\<close>

theorem hooks_gated_by_flags:
  "(\<not> EnableFlowMetrics (config cw) \<longrightarrow>
      OnFlowStart visit now flowName cw = cw
      \<and> OnFlowEnd visit now1 now2 flowName duration cw = cw
      \<and> OnFlowError visit unicodeToLower now1 now2 flowName duration err cw = cw)
   \<and> (\<not> EnableModelMetrics (config cw) \<longrightarrow>
      OnGenerate visit now1 now2 now3 modelID tokensUsed duration cw = cw)"
  by (simp add: OnFlowStart_def OnFlowEnd_def OnFlowError_def OnGenerate_def)

text \<open>C10 at an instance with both flags off and one buffered point.\<close>

theorem hooks_gated_by_flags_witness:
  "\<not> EnableFlowMetrics (config ((exampleCW [examplePoint 0])
        \<lparr>config := exampleConfig\<lparr>EnableFlowMetrics := False, EnableModelMetrics := False\<rparr>\<rparr>))
   \<and> \<not> EnableModelMetrics (config ((exampleCW [examplePoint 0])
        \<lparr>config := exampleConfig\<lparr>EnableFlowMetrics := False, EnableModelMetrics := False\<rparr>\<rparr>))
   \<and> metricBuffer (OnFlowStart id 5 ''login''
        ((exampleCW [examplePoint 0])
           \<lparr>config := exampleConfig\<lparr>EnableFlowMetrics := False, EnableModelMetrics := False\<rparr>\<rparr>))
       = [examplePoint 0]
   \<and> metricBuffer (OnFlowEnd id 5 6 ''login'' 1500000
        ((exampleCW [examplePoint 0])
           \<lparr>config := exampleConfig\<lparr>EnableFlowMetrics := False, EnableModelMetrics := False\<rparr>\<rparr>))
       = [examplePoint 0]
   \<and> metricBuffer (OnFlowError id id 5 6 ''login'' 1500000 (Some ''timeout'')
        ((exampleCW [examplePoint 0])
           \<lparr>config := exampleConfig\<lparr>EnableFlowMetrics := False, EnableModelMetrics := False\<rparr>\<rparr>))
       = [examplePoint 0]
   \<and> metricBuffer (OnGenerate id 5 6 7 ''nova'' 42 1500000
        ((exampleCW [examplePoint 0])
           \<lparr>config := exampleConfig\<lparr>EnableFlowMetrics := False, EnableModelMetrics := False\<rparr>\<rparr>))
       = [examplePoint 0]"
proof -
  let ?cw = "(exampleCW [examplePoint 0])
           \<lparr>config := exampleConfig\<lparr>EnableFlowMetrics := False, EnableModelMetrics := False\<rparr>\<rparr>"
  have off: "\<not> EnableFlowMetrics (config ?cw)" "\<not> EnableModelMetrics (config ?cw)"
    by (simp_all add: exampleCW_def exampleConfig_def)
  have buf: "metricBuffer ?cw = [examplePoint 0]"
    by (simp add: exampleCW_def)
  from off
    hooks_gated_by_flags[of ?cw id 5 "''login''" 5 6 1500000 id "Some ''timeout''" 7 "''nova''" 42]
  show ?thesis by (simp only: buf simp_thms)
qed

section \<open>Construction and validation\<close>

text \<open>
  C3, as stated, fails: \<open>NewCloudWatch\<close> on the zero configuration, whose namespace is
  empty, returns a nil error and a running instance under the default namespace.
\<close>

theorem NewCloudWatch_empty_namespace_counterexample:
  "Namespace zeroConfig = ''''
   \<and> NewCloudWatch exampleMaxCap zeroConfig = Return (exampleCW [], None)
   \<and> namespace (exampleCW []) = ''GenKit/AWS''
   \<and> bufferTicker (exampleCW []) \<and> flushLoop (exampleCW []) \<and> \<not> stopCh (exampleCW [])"
  by (simp add: NewCloudWatch_def SetDefaults_def exampleCW_def exampleConfig_def zeroConfig_def
        exampleMaxCap_def DefaultNamespace_def DefaultBufferSize_def)

lemma SetDefaults_size:
  "MetricBufferSize (SetDefaults c)
     = (if MetricBufferSize c = 0 then DefaultBufferSize else MetricBufferSize c)"
  by (simp add: SetDefaults_def Let_def)

text \<open>
  C3, amended. A configuration with an empty namespace is rejected by \<open>Validate\<close>, with
  the error \<open>namespace is required\<close>. \<open>NewCloudWatch\<close> does not validate and never
  returns an error: it replaces the empty namespace by \<open>DefaultNamespace\<close> and, when the
  buffer size after \<open>SetDefaults\<close> is a capacity that \<open>make\<close> allocates (not negative
  and within the limit of the runtime), returns a nil error and an instance whose ticker
  and flush loop are started; for any other buffer size it panics in \<open>make\<close>.
\<close>

theorem NewCloudWatch_defaults_namespace:
  assumes "Namespace c = ''''"
  shows "Validate c = Some ''namespace is required''
       \<and> (0 \<le> MetricBufferSize (SetDefaults c) \<and> MetricBufferSize (SetDefaults c) \<le> maxCap \<longrightarrow>
            (\<exists>cw. NewCloudWatch maxCap c = Return (cw, None)
               \<and> namespace cw = DefaultNamespace
               \<and> config cw = SetDefaults c
               \<and> Namespace (config cw) = DefaultNamespace
               \<and> metricBuffer cw = [] \<and> calls cw = []
               \<and> bufferTicker cw \<and> flushLoop cw \<and> \<not> stopCh cw))
       \<and> (MetricBufferSize (SetDefaults c) < 0 \<or> maxCap < MetricBufferSize (SetDefaults c) \<longrightarrow>
            NewCloudWatch maxCap c = Panic ''makeslice: cap out of range'')
       \<and> MetricBufferSize (SetDefaults c)
            = (if MetricBufferSize c = 0 then 20 else MetricBufferSize c)
       \<and> NewCloudWatch maxCap c \<noteq> Return (cw', Some e)"
proof -
  have ns: "Namespace (SetDefaults c) = DefaultNamespace"
    using assms by (simp add: SetDefaults_def Let_def)
  have "Validate c = Some ''namespace is required''"
    using assms by (simp add: Validate_def)
  moreover have "MetricBufferSize (SetDefaults c)
            = (if MetricBufferSize c = 0 then 20 else MetricBufferSize c)"
    by (simp add: SetDefaults_size DefaultBufferSize_def)
  moreover have "NewCloudWatch maxCap c \<noteq> Return (cw', Some e)"
    by (simp add: NewCloudWatch_def Let_def)
  ultimately show ?thesis
    by (auto simp add: NewCloudWatch_def Let_def ns)
qed

text \<open>The amended C3 at the zero configuration, and at a buffer size above the limit.\<close>

theorem NewCloudWatch_defaults_namespace_witness:
  "Namespace zeroConfig = ''''
   \<and> Validate zeroConfig = Some ''namespace is required''
   \<and> 0 \<le> MetricBufferSize (SetDefaults zeroConfig)
   \<and> MetricBufferSize (SetDefaults zeroConfig) \<le> exampleMaxCap
   \<and> (\<exists>cw. NewCloudWatch exampleMaxCap zeroConfig = Return (cw, None)
         \<and> namespace cw = DefaultNamespace \<and> bufferTicker cw \<and> flushLoop cw)
   \<and> Namespace (zeroConfig\<lparr>MetricBufferSize := 9223372036854775807\<rparr>) = ''''
   \<and> exampleMaxCap < MetricBufferSize (SetDefaults (zeroConfig\<lparr>MetricBufferSize := 9223372036854775807\<rparr>))
   \<and> NewCloudWatch exampleMaxCap (zeroConfig\<lparr>MetricBufferSize := 9223372036854775807\<rparr>)
       = Panic ''makeslice: cap out of range''"
proof -
  let ?big = "zeroConfig\<lparr>MetricBufferSize := 9223372036854775807\<rparr>"
  have e: "Namespace zeroConfig = ''''" and e': "Namespace ?big = ''''"
    by (simp_all add: zeroConfig_def)
  have s: "0 \<le> MetricBufferSize (SetDefaults zeroConfig)
      \<and> MetricBufferSize (SetDefaults zeroConfig) \<le> exampleMaxCap"
    by (simp add: SetDefaults_size zeroConfig_def DefaultBufferSize_def exampleMaxCap_def)
  have b: "exampleMaxCap < MetricBufferSize (SetDefaults ?big)"
    by (simp add: SetDefaults_size zeroConfig_def exampleMaxCap_def)
  from NewCloudWatch_defaults_namespace[OF e, of exampleMaxCap] s
  have 1: "Validate zeroConfig = Some ''namespace is required''
      \<and> (\<exists>cw. NewCloudWatch exampleMaxCap zeroConfig = Return (cw, None)
         \<and> namespace cw = DefaultNamespace \<and> bufferTicker cw \<and> flushLoop cw)"
    by blast
  from NewCloudWatch_defaults_namespace[OF e', of exampleMaxCap] b
  have 2: "NewCloudWatch exampleMaxCap ?big = Panic ''makeslice: cap out of range''"
    by blast
  from e e' s b 1 2 show ?thesis by blast
qed

section \<open>putMetric\<close>

text \<open>
  C4, as stated, fails: \<open>putMetric\<close> with the empty name puts the point into the buffer.
\<close>

theorem putMetric_empty_name_counterexample:
  "metricBuffer (putMetric 0 '''' 1 [] (exampleCW []))
     = [\<lparr>MetricName = '''', MetricValue = 1, Unit = StandardUnitCount, Timestamp = 0,
         Dimensions = []\<rparr>]"
  by (simp add: putMetric_def appendBuffer_def exampleCW_def Let_def)

text \<open>
  C4, amended. \<open>putMetric\<close> does not look at the name and reports nothing to its caller:
  for every name, the empty one too, it appends the point at the end of the buffer, makes
  no request, and starts a flush goroutine when the buffer has reached
  \<open>MetricBufferSize\<close> points.
\<close>

theorem putMetric_appends:
  "putMetric now metricName v dimensions cw
     = cw\<lparr>metricBuffer := metricBuffer cw
            @ [\<lparr>MetricName = metricName, MetricValue = v, Unit = StandardUnitCount,
                Timestamp = now, Dimensions = dimensions\<rparr>],
          flushes := (if MetricBufferSize (config cw) \<le> int (length (metricBuffer cw)) + 1
                      then Suc (flushes cw) else flushes cw)\<rparr>
   \<and> calls (putMetric now metricName v dimensions cw) = calls cw
   \<and> metricBuffer (putMetric now '''' v dimensions cw)
       = metricBuffer cw
            @ [\<lparr>MetricName = '''', MetricValue = v, Unit = StandardUnitCount,
                Timestamp = now, Dimensions = dimensions\<rparr>]"
  by (simp add: putMetric_def appendBuffer_def Let_def)

section \<open>Dimension keys\<close>

text \<open>
  C9, as stated, fails: with the custom dimension \<open>FlowName\<close> configured, the point that
  \<open>OnFlowStart\<close> emits carries the key \<open>FlowName\<close> twice.
\<close>

theorem buildDimensions_duplicate_key_counterexample:
  "map Name (Dimensions (last (metricBuffer
       (OnFlowStart id 0 ''login''
          ((exampleCW [])\<lparr>config := exampleConfig
              \<lparr>CustomDimensions := Some [(''FlowName'', ''checkout'')]\<rparr>\<rparr>)))))
     = [''FlowName'', ''FlowName'']"
  by (simp add: OnFlowStart_def putMetric_def appendBuffer_def buildDimensions_def
        exampleCW_def exampleConfig_def Let_def)

lemma Name_buildDimensions:
  "map Name (buildDimensions visit cw dimensions)
     = map fst (visit (case CustomDimensions (config cw) of None \<Rightarrow> [] | Some m \<Rightarrow> m))
       @ map fst (visit dimensions)"
  by (simp add: buildDimensions_def comp_def case_prod_unfold)

text \<open>
  C9, amended. \<open>buildDimensions\<close> lists the custom dimensions and then the dimensions of
  the call, without merging equal keys. Whatever the order in which the two maps are
  visited, the keys of the result are pairwise different exactly when no key of the custom
  dimensions is a key of the call's dimensions.
\<close>

theorem buildDimensions_distinct_keys:
  assumes "(case CustomDimensions (config cw) of None \<Rightarrow> [] | Some m \<Rightarrow> m) = custom"
    and "mset (visit custom) = mset custom" and "mset (visit dimensions) = mset dimensions"
    and "distinct (map fst custom)" and "distinct (map fst dimensions)"
  shows "distinct (map Name (buildDimensions visit cw dimensions))
           \<longleftrightarrow> set (map fst custom) \<inter> set (map fst dimensions) = {}"
proof -
  have c: "mset (map fst (visit custom)) = mset (map fst custom)"
    and d: "mset (map fst (visit dimensions)) = mset (map fst dimensions)"
    using assms(2,3) by (metis mset_map)+
  from c assms(4) have dc: "distinct (map fst (visit custom))"
    using mset_eq_imp_distinct_iff by blast
  from d assms(5) have dd: "distinct (map fst (visit dimensions))"
    using mset_eq_imp_distinct_iff by blast
  from c have sc: "set (map fst (visit custom)) = set (map fst custom)"
    by (rule mset_eq_setD)
  from d have sd: "set (map fst (visit dimensions)) = set (map fst dimensions)"
    by (rule mset_eq_setD)
  show ?thesis
    unfolding Name_buildDimensions assms(1) distinct_append
    using dc dd sc sd by simp
qed

text \<open>The amended C9 at one custom dimension and the dimensions of \<open>OnFlowEnd\<close>.\<close>

theorem buildDimensions_distinct_keys_witness:
  "mset (rev [(''Environment'', ''Test'')]) = mset [(''Environment'', ''Test'')]
   \<and> mset (rev [(''FlowName'', ''login''), (''Status'', ''Success'')])
       = mset [(''FlowName'', ''login''), (''Status'', ''Success'')]
   \<and> distinct (map fst [(''Environment'', ''Test'')])
   \<and> distinct (map fst [(''FlowName'', ''login''), (''Status'', ''Success'')])
   \<and> set (map fst [(''Environment'', ''Test'')])
        \<inter> set (map fst [(''FlowName'', ''login''), (''Status'', ''Success'')]) = {}
   \<and> distinct (map Name (buildDimensions rev
        ((exampleCW [])\<lparr>config := exampleConfig
            \<lparr>CustomDimensions := Some [(''Environment'', ''Test'')]\<rparr>\<rparr>)
        [(''FlowName'', ''login''), (''Status'', ''Success'')]))"
proof -
  let ?cw = "(exampleCW [])\<lparr>config := exampleConfig
            \<lparr>CustomDimensions := Some [(''Environment'', ''Test'')]\<rparr>\<rparr>"
  let ?custom = "[(''Environment'', ''Test'')]"
  let ?dims = "[(''FlowName'', ''login''), (''Status'', ''Success'')]"
  have a: "(case CustomDimensions (config ?cw) of None \<Rightarrow> [] | Some m \<Rightarrow> m) = ?custom"
    by (simp add: exampleCW_def exampleConfig_def)
  have b: "mset (rev ?custom) = mset ?custom" and c: "mset (rev ?dims) = mset ?dims"
    by simp_all
  have d: "distinct (map fst ?custom)" and e: "distinct (map fst ?dims)"
    by simp_all
  have f: "set (map fst ?custom) \<inter> set (map fst ?dims) = {}"
    by simp
  from buildDimensions_distinct_keys[OF a b c d e] f
  have "distinct (map Name (buildDimensions rev ?cw ?dims))" by blast
  with b c d e f show ?thesis by blast
qed

end
